theory Spec2Isabelle
  imports Complex_Main "HOL-Library.Monad_Syntax" "HOL-Library.Multiset"
begin

text \<open>
  The gate-application engine of pennylane-lightning: the gate classes, their matrices and
  kernels, and the dispatch by label of \<^verbatim>\<open>Gates.cpp\<close>, and the index generator and driver that
  \<^verbatim>\<open>Apply.hpp\<close> declares.  The definitions come first, in the order of the source; the
  properties follow, one section per claim.
\<close>

section \<open>Memory model\<close>

text \<open>
  The state vector is a \<^verbatim>\<open>CplxType*\<close> buffer, the index tuple a \<^verbatim>\<open>vector<size_t>\<close> and the
  scratch space a \<^verbatim>\<open>vector<CplxType>\<close>.  None of the accesses of \<^verbatim>\<open>Gates.cpp\<close> is bounds-checked
  by the language, so an access outside the buffer is undefined behaviour.  The model makes every
  access explicit: \<open>load\<close> and \<open>store\<close> return \<open>None\<close> outside the buffer, and a kernel is
  a computation in the option monad returning the updated state and scratch vector.

  Amplitudes are \<^verbatim>\<open>std::complex<double>\<close>.  Except where an arithmetic is named (section
  Arithmetic below), they are modelled as exact complex numbers, so that a statement is one
  about the arithmetic the code performs with the rounding and the finite range of doubles left
  out.
\<close>

definition load :: "'a list \<Rightarrow> nat \<Rightarrow> 'a option" where
  "load xs i = (if i < length xs then Some (xs ! i) else None)"

definition store :: "'a list \<Rightarrow> nat \<Rightarrow> 'a \<Rightarrow> 'a list option" where
  "store xs i a = (if i < length xs then Some (xs[i := a]) else None)"

text \<open>\<^verbatim>\<open>std::swap(state[a], state[b])\<close>: read both cells, write both cells.\<close>

definition std_swap :: "'a list \<Rightarrow> nat \<Rightarrow> nat \<Rightarrow> 'a list option" where
  "std_swap state a b = do {
     x \<leftarrow> load state a;
     y \<leftarrow> load state b;
     state \<leftarrow> store state a y;
     store state b x }"

text \<open>A range-based or counted \<^verbatim>\<open>for\<close> loop whose range the body does not change.\<close>

primrec forEach :: "'a list \<Rightarrow> ('a \<Rightarrow> 's \<Rightarrow> 's option) \<Rightarrow> 's \<Rightarrow> 's option" where
  "forEach [] body s = Some s"
| "forEach (x # xs) body s = Option.bind (body x s) (forEach xs body)"

section \<open>Constants of the headers\<close>

text \<open>
  Modelled from the spec: the headers that \<^verbatim>\<open>Gates.cpp\<close> includes (\<^verbatim>\<open>Gates.hpp\<close>, \<^verbatim>\<open>Util.hpp\<close>),
  where \<^verbatim>\<open>IMAG\<close> and \<^verbatim>\<open>SQRT2INV\<close> are declared, are not among the source files.  The gate
  catalogue describes PauliY as "scale-and-swap with \<open>\<plusminus>i\<close>" and Hadamard as a "2x2 mix with
  \<open>1/\<surd>2\<close>", so \<open>IMAG\<close> is the imaginary unit and \<open>SQRT2INV\<close> is \<open>1/\<surd>2\<close>.
\<close>

definition IMAG :: complex where
  "IMAG = \<i>"

definition SQRT2INV :: complex where
  "SQRT2INV = complex_of_real (1 / sqrt 2)"

section \<open>Gate instances\<close>

text \<open>
  One constructor per gate class of \<^verbatim>\<open>Gates.cpp\<close>.  A parametrised gate holds the scalars its
  C++ constructor precomputes, in the order of the member initialiser list; the \<^verbatim>\<open>matrix\<close>
  member is a function of them (\<open>asMatrix\<close> below).
\<close>

datatype gate =
    XGate
  | YGate
  | ZGate
  | HadamardGate
  | SGate
  | TGate
  | RotationXGate complex complex
  | RotationYGate complex complex
  | RotationZGate complex complex
  | PhaseShiftGate complex
  | GeneralRotationGate complex complex complex complex complex complex
  | CNOTGate
  | SWAPGate
  | CZGate
  | CRotationXGate complex complex
  | CRotationYGate complex complex
  | CRotationZGate complex complex
  | CGeneralRotationGate complex complex complex complex complex complex
  | ToffoliGate
  | CSWAPGate

text \<open>\<^verbatim>\<open>std::pow(M_E, CplxType(0, x))\<close>.\<close>

definition expi :: "real \<Rightarrow> complex" where
  "expi x = exp (Complex 0 x)"

definition TGate_shift :: complex where
  "TGate_shift = expi (pi / 4)"

text \<open>The constructors of the parametrised gates.\<close>

definition RotationXGate_new :: "real \<Rightarrow> gate" where
  "RotationXGate_new rotationAngle =
     RotationXGate (Complex (cos (rotationAngle / 2)) 0) (Complex 0 (sin (- rotationAngle / 2)))"

definition RotationYGate_new :: "real \<Rightarrow> gate" where
  "RotationYGate_new rotationAngle =
     RotationYGate (Complex (cos (rotationAngle / 2)) 0) (Complex (sin (rotationAngle / 2)) 0)"

definition RotationZGate_new :: "real \<Rightarrow> gate" where
  "RotationZGate_new rotationAngle =
     RotationZGate (expi (- rotationAngle / 2)) (expi (rotationAngle / 2))"

definition PhaseShiftGate_new :: "real \<Rightarrow> gate" where
  "PhaseShiftGate_new rotationAngle = PhaseShiftGate (expi rotationAngle)"

definition GeneralRotationGate_new :: "real \<Rightarrow> real \<Rightarrow> real \<Rightarrow> gate" where
  "GeneralRotationGate_new phi theta omega =
     (let c = Complex (cos (theta / 2)) 0;
          s = Complex (sin (theta / 2)) 0
      in GeneralRotationGate c s
           (c * expi ((- phi - omega) / 2))
           (- s * expi ((phi - omega) / 2))
           (s * expi ((- phi + omega) / 2))
           (c * expi ((phi + omega) / 2)))"

definition CRotationXGate_new :: "real \<Rightarrow> gate" where
  "CRotationXGate_new rotationAngle =
     CRotationXGate (Complex (cos (rotationAngle / 2)) 0) (Complex 0 (sin (- rotationAngle / 2)))"

definition CRotationYGate_new :: "real \<Rightarrow> gate" where
  "CRotationYGate_new rotationAngle =
     CRotationYGate (Complex (cos (rotationAngle / 2)) 0) (Complex (sin (rotationAngle / 2)) 0)"

definition CRotationZGate_new :: "real \<Rightarrow> gate" where
  "CRotationZGate_new rotationAngle =
     CRotationZGate (expi (- rotationAngle / 2)) (expi (rotationAngle / 2))"

definition CGeneralRotationGate_new :: "real \<Rightarrow> real \<Rightarrow> real \<Rightarrow> gate" where
  "CGeneralRotationGate_new phi theta omega =
     (let c = Complex (cos (theta / 2)) 0;
          s = Complex (sin (theta / 2)) 0
      in CGeneralRotationGate c s
           (c * expi ((- phi - omega) / 2))
           (- s * expi ((phi - omega) / 2))
           (s * expi ((- phi + omega) / 2))
           (c * expi ((phi + omega) / 2)))"

text \<open>
  Modelled from the spec: the class declarations (\<^verbatim>\<open>Gates.hpp\<close>) are not among the source
  files, so which of \<^verbatim>\<open>SingleQubitGate\<close>, \<^verbatim>\<open>TwoQubitGate\<close> and \<^verbatim>\<open>ThreeQubitGate\<close> a gate class
  derives from is taken from the arity column of the gate catalogue; it agrees with the size of
  the gate's matrix in \<^verbatim>\<open>Gates.cpp\<close>.  The three base constructors pass 1, 2 and 3 to
  \<^verbatim>\<open>AbstractGate\<close>, which stores it as \<^verbatim>\<open>numQubits\<close>.
\<close>

fun numQubits :: "gate \<Rightarrow> nat" where
  "numQubits XGate = 1"
| "numQubits YGate = 1"
| "numQubits ZGate = 1"
| "numQubits HadamardGate = 1"
| "numQubits SGate = 1"
| "numQubits TGate = 1"
| "numQubits (RotationXGate c js) = 1"
| "numQubits (RotationYGate c s) = 1"
| "numQubits (RotationZGate first second) = 1"
| "numQubits (PhaseShiftGate shift) = 1"
| "numQubits (GeneralRotationGate c s r1 r2 r3 r4) = 1"
| "numQubits CNOTGate = 2"
| "numQubits SWAPGate = 2"
| "numQubits CZGate = 2"
| "numQubits (CRotationXGate c js) = 2"
| "numQubits (CRotationYGate c s) = 2"
| "numQubits (CRotationZGate first second) = 2"
| "numQubits (CGeneralRotationGate c s r1 r2 r3 r4) = 2"
| "numQubits ToffoliGate = 3"
| "numQubits CSWAPGate = 3"

text \<open>\<^verbatim>\<open>AbstractGate::length\<close>, initialised to \<^verbatim>\<open>exp2(numQubits)\<close>.\<close>

definition gate_length :: "gate \<Rightarrow> nat" where
  "gate_length g = 2 ^ numQubits g"

text \<open>\<^verbatim>\<open>asMatrix()\<close>: the row-major \<^verbatim>\<open>matrix\<close> member of each class.\<close>

fun asMatrix :: "gate \<Rightarrow> complex list" where
  "asMatrix XGate =
     [0, 1,
      1, 0]"
| "asMatrix YGate =
     [0, - IMAG,
      IMAG, 0]"
| "asMatrix ZGate =
     [1, 0,
      0, - 1]"
| "asMatrix HadamardGate =
     [SQRT2INV, SQRT2INV,
      SQRT2INV, - SQRT2INV]"
| "asMatrix SGate =
     [1, 0,
      0, IMAG]"
| "asMatrix TGate =
     [1, 0,
      0, TGate_shift]"
| "asMatrix (RotationXGate c js) =
     [c, js,
      js, c]"
| "asMatrix (RotationYGate c s) =
     [c, - s,
      s, c]"
| "asMatrix (RotationZGate first second) =
     [first, 0,
      0, second]"
| "asMatrix (PhaseShiftGate shift) =
     [1, 0,
      0, shift]"
| "asMatrix (GeneralRotationGate c s r1 r2 r3 r4) =
     [r1, r2,
      r3, r4]"
| "asMatrix CNOTGate =
     [1, 0, 0, 0,
      0, 1, 0, 0,
      0, 0, 0, 1,
      0, 0, 1, 0]"
| "asMatrix SWAPGate =
     [1, 0, 0, 0,
      0, 0, 1, 0,
      0, 1, 0, 0,
      0, 0, 0, 1]"
| "asMatrix CZGate =
     [1, 0, 0, 0,
      0, 1, 0, 0,
      0, 0, 1, 0,
      0, 0, 0, - 1]"
| "asMatrix (CRotationXGate c js) =
     [1, 0, 0, 0,
      0, 1, 0, 0,
      0, 0, c, js,
      0, 0, js, c]"
| "asMatrix (CRotationYGate c s) =
     [1, 0, 0, 0,
      0, 1, 0, 0,
      0, 0, c, - s,
      0, 0, s, c]"
| "asMatrix (CRotationZGate first second) =
     [1, 0, 0, 0,
      0, 1, 0, 0,
      0, 0, first, 0,
      0, 0, 0, second]"
| "asMatrix (CGeneralRotationGate c s r1 r2 r3 r4) =
     [1, 0, 0, 0,
      0, 1, 0, 0,
      0, 0, r1, r2,
      0, 0, r3, r4]"
| "asMatrix ToffoliGate =
     [1, 0, 0, 0, 0, 0, 0, 0,
      0, 1, 0, 0, 0, 0, 0, 0,
      0, 0, 1, 0, 0, 0, 0, 0,
      0, 0, 0, 1, 0, 0, 0, 0,
      0, 0, 0, 0, 1, 0, 0, 0,
      0, 0, 0, 0, 0, 1, 0, 0,
      0, 0, 0, 0, 0, 0, 0, 1,
      0, 0, 0, 0, 0, 0, 1, 0]"
| "asMatrix CSWAPGate =
     [1, 0, 0, 0, 0, 0, 0, 0,
      0, 1, 0, 0, 0, 0, 0, 0,
      0, 0, 1, 0, 0, 0, 0, 0,
      0, 0, 0, 1, 0, 0, 0, 0,
      0, 0, 0, 0, 1, 0, 0, 0,
      0, 0, 0, 0, 0, 0, 1, 0,
      0, 0, 0, 0, 0, 1, 0, 0,
      0, 0, 0, 0, 0, 0, 0, 1]"

section \<open>Arithmetic\<close>

text \<open>
  Every \<^verbatim>\<open>+\<close>, \<^verbatim>\<open>-\<close> and \<^verbatim>\<open>*\<close> of a kernel is an operation of \<^verbatim>\<open>std::complex<double>\<close> and rounds.
  Where a property depends on the rounding, the kernel takes the arithmetic as a parameter:
  the three operations and the value of \<^verbatim>\<open>SQRT2INV\<close> in it.
\<close>

record 'a arithmetic =
  arith_add :: "'a \<Rightarrow> 'a \<Rightarrow> 'a"
  arith_sub :: "'a \<Rightarrow> 'a \<Rightarrow> 'a"
  arith_mul :: "'a \<Rightarrow> 'a \<Rightarrow> 'a"
  arith_SQRT2INV :: 'a

text \<open>The exact arithmetic of the complex numbers: the code with round-off left out.\<close>

definition exactArithmetic :: "complex arithmetic" where
  "exactArithmetic =
     \<lparr> arith_add = (\<lambda>a b. a + b), arith_sub = (\<lambda>a b. a - b), arith_mul = (\<lambda>a b. a * b),
       arith_SQRT2INV = SQRT2INV \<rparr>"

text \<open>
  Double precision.  \<open>fl x\<close> is the double nearest to the real number \<open>x\<close>: with \<open>2^e \<le> |x| < 2^(e+1)\<close>
  the doubles around \<open>x\<close> are the multiples of \<open>2^(e-52)\<close> (53-bit significand), and \<open>x\<close> is rounded
  to the nearest of them, a tie to the one with even significand (IEEE 754 round-to-nearest-even,
  the default rounding mode).  Overflow and subnormal numbers are not modelled: the exponent is
  unbounded.
\<close>

definition round_even :: "real \<Rightarrow> int" where
  "round_even y =
     (let f = \<lfloor>y\<rfloor>; d = y - of_int f
      in if d < 1 / 2 then f else if 1 / 2 < d then f + 1 else if even f then f else f + 1)"

definition pow2 :: "int \<Rightarrow> real" where
  "pow2 e = (if 0 \<le> e then 2 ^ nat e else 1 / 2 ^ nat (- e))"

definition fl :: "real \<Rightarrow> real" where
  "fl x =
     (if x = 0 then 0
      else (let e = \<lfloor>log 2 \<bar>x\<bar>\<rfloor>; ulp = pow2 (e - 52)
            in of_int (round_even (x / ulp)) * ulp))"

text \<open>
  An amplitude in double precision is the pair of its real and imaginary part.  Sum and
  difference round each component; the product of \<open>(a, b)\<close> and \<open>(c, d)\<close> is
  \<open>(ac - bd, ad + bc)\<close> with each product and each sum rounded, which is what
  \<^verbatim>\<open>operator*\<close> of \<^verbatim>\<open>std::complex<double>\<close> computes on finite operands.  \<open>s\<close> is the double that
  \<^verbatim>\<open>SQRT2INV\<close> holds, with imaginary part 0; were \<^verbatim>\<open>SQRT2INV\<close> declared a \<^verbatim>\<open>double\<close>, the product
  would scale each component by \<open>s\<close>, and \<open>HadamardGate_double_closed\<close> shows that this gives the
  same numbers.
\<close>

definition doubleArithmetic :: "real \<Rightarrow> (real \<times> real) arithmetic" where
  "doubleArithmetic s =
     \<lparr> arith_add = (\<lambda>(a, b) (c, d). (fl (a + c), fl (b + d))),
       arith_sub = (\<lambda>(a, b) (c, d). (fl (a - c), fl (b - d))),
       arith_mul = (\<lambda>(a, b) (c, d). (fl (fl (a * c) - fl (b * d)), fl (fl (a * d) + fl (b * c)))),
       arith_SQRT2INV = (s, 0) \<rparr>"

text \<open>
  Modelled from the spec: the header that gives \<^verbatim>\<open>SQRT2INV\<close> its value is not among the source
  files, and the catalogue says \<open>1/\<surd>2\<close>.  A double holding \<open>1/\<surd>2\<close> is one of the two doubles next
  to it: \<^verbatim>\<open>0x1.6a09e667f3bccp-1\<close> below, which is what the literal \<^verbatim>\<open>0.7071067811865475\<close> and
  \<^verbatim>\<open>1/sqrt(2.0)\<close> give, and \<^verbatim>\<open>0x1.6a09e667f3bcdp-1\<close> above, which is what \<^verbatim>\<open>M_SQRT1_2\<close> and
  \<^verbatim>\<open>sqrt(0.5)\<close> give.  The statements in double precision are proved for both.
\<close>

definition SQRT2INV_below :: real where
  "SQRT2INV_below = 6369051672525772 / 2 ^ 53"

definition SQRT2INV_above :: real where
  "SQRT2INV_above = 6369051672525773 / 2 ^ 53"

section \<open>Kernels\<close>

type_synonym kernel = "complex list \<Rightarrow> nat list \<Rightarrow> complex list \<Rightarrow> (complex list \<times> complex list) option"

text \<open>
  \<^verbatim>\<open>AbstractGate::applyKernel\<close>: the assertion, the gather loop over \<^verbatim>\<open>indices\<close> with its running
  position \<^verbatim>\<open>pos\<close>, and the scatter loop, which zeroes \<^verbatim>\<open>state[index]\<close> and accumulates row
  \<^verbatim>\<open>i\<close> of the matrix into it.  A failed assertion is \<open>None\<close>, like an access out of bounds.
\<close>

definition gatherStep :: "complex list \<Rightarrow> nat \<Rightarrow> complex list \<times> nat \<Rightarrow> (complex list \<times> nat) option" where
  "gatherStep state index = (\<lambda>(v, pos). do {
     a \<leftarrow> load state index;
     v \<leftarrow> store v pos a;
     Some (v, pos + 1) })"

definition accumulateStep ::
  "complex list \<Rightarrow> complex list \<Rightarrow> nat \<Rightarrow> nat \<Rightarrow> nat \<Rightarrow> complex list \<Rightarrow> complex list option" where
  "accumulateStep matrix v index baseIndex j state = do {
     m \<leftarrow> load matrix (baseIndex + j);
     x \<leftarrow> load v j;
     a \<leftarrow> load state index;
     store state index (a + m * x) }"

definition scatterStep ::
  "complex list \<Rightarrow> nat list \<Rightarrow> complex list \<Rightarrow> nat \<Rightarrow> complex list \<Rightarrow> complex list option" where
  "scatterStep matrix indices v i state = do {
     index \<leftarrow> load indices i;
     state \<leftarrow> store state index 0;
     let baseIndex = i * length indices;
     forEach [0..<length indices] (accumulateStep matrix v index baseIndex) state }"

definition AbstractGate_applyKernel :: "gate \<Rightarrow> kernel" where
  "AbstractGate_applyKernel g state indices v =
     (let matrix = asMatrix g in
      if \<not> (length indices = gate_length g \<and> length v = gate_length g) then None
      else do {
        (v, pos) \<leftarrow> forEach indices (gatherStep state) (v, 0);
        state \<leftarrow> forEach [0..<length indices] (scatterStep matrix indices v) state;
        Some (state, v) })"

text \<open>The specialised kernels, one per class that overrides \<^verbatim>\<open>applyKernel\<close>.\<close>

definition XGate_applyKernel :: kernel where
  "XGate_applyKernel state indices v = do {
     i0 \<leftarrow> load indices 0;
     i1 \<leftarrow> load indices 1;
     state \<leftarrow> std_swap state i0 i1;
     Some (state, v) }"

definition YGate_applyKernel :: kernel where
  "YGate_applyKernel state indices v = do {
     i0 \<leftarrow> load indices 0;
     a0 \<leftarrow> load state i0;
     v \<leftarrow> store v 0 a0;
     i1 \<leftarrow> load indices 1;
     a1 \<leftarrow> load state i1;
     state \<leftarrow> store state i0 (- IMAG * a1);
     v0 \<leftarrow> load v 0;
     state \<leftarrow> store state i1 (IMAG * v0);
     Some (state, v) }"

definition ZGate_applyKernel :: kernel where
  "ZGate_applyKernel state indices v = do {
     i1 \<leftarrow> load indices 1;
     a1 \<leftarrow> load state i1;
     state \<leftarrow> store state i1 (a1 * (- 1));
     Some (state, v) }"

text \<open>
  \<^verbatim>\<open>HadamardGate::applyKernel\<close>, with the arithmetic of its two assignments as a parameter, and
  in the exact arithmetic.
\<close>

definition HadamardGate_applyKernel_with ::
  "'a arithmetic \<Rightarrow> 'a list \<Rightarrow> nat list \<Rightarrow> 'a list \<Rightarrow> ('a list \<times> 'a list) option" where
  "HadamardGate_applyKernel_with ar state indices v = do {
     i0 \<leftarrow> load indices 0;
     a0 \<leftarrow> load state i0;
     v \<leftarrow> store v 0 a0;
     i1 \<leftarrow> load indices 1;
     a1 \<leftarrow> load state i1;
     v \<leftarrow> store v 1 a1;
     v0 \<leftarrow> load v 0;
     v1 \<leftarrow> load v 1;
     state \<leftarrow> store state i0 (arith_mul ar (arith_SQRT2INV ar) (arith_add ar v0 v1));
     state \<leftarrow> store state i1 (arith_mul ar (arith_SQRT2INV ar) (arith_sub ar v0 v1));
     Some (state, v) }"

definition HadamardGate_applyKernel :: kernel where
  "HadamardGate_applyKernel = HadamardGate_applyKernel_with exactArithmetic"

definition SGate_applyKernel :: kernel where
  "SGate_applyKernel state indices v = do {
     i1 \<leftarrow> load indices 1;
     a1 \<leftarrow> load state i1;
     state \<leftarrow> store state i1 (a1 * IMAG);
     Some (state, v) }"

definition TGate_applyKernel :: kernel where
  "TGate_applyKernel state indices v = do {
     i1 \<leftarrow> load indices 1;
     a1 \<leftarrow> load state i1;
     state \<leftarrow> store state i1 (a1 * TGate_shift);
     Some (state, v) }"

definition RotationZGate_applyKernel :: "complex \<Rightarrow> complex \<Rightarrow> kernel" where
  "RotationZGate_applyKernel first second state indices v = do {
     i0 \<leftarrow> load indices 0;
     a0 \<leftarrow> load state i0;
     state \<leftarrow> store state i0 (a0 * first);
     i1 \<leftarrow> load indices 1;
     a1 \<leftarrow> load state i1;
     state \<leftarrow> store state i1 (a1 * second);
     Some (state, v) }"

definition PhaseShiftGate_applyKernel :: "complex \<Rightarrow> kernel" where
  "PhaseShiftGate_applyKernel shift state indices v = do {
     i1 \<leftarrow> load indices 1;
     a1 \<leftarrow> load state i1;
     state \<leftarrow> store state i1 (a1 * shift);
     Some (state, v) }"

definition CNOTGate_applyKernel :: kernel where
  "CNOTGate_applyKernel state indices v = do {
     i2 \<leftarrow> load indices 2;
     i3 \<leftarrow> load indices 3;
     state \<leftarrow> std_swap state i2 i3;
     Some (state, v) }"

definition SWAPGate_applyKernel :: kernel where
  "SWAPGate_applyKernel state indices v = do {
     i1 \<leftarrow> load indices 1;
     i2 \<leftarrow> load indices 2;
     state \<leftarrow> std_swap state i1 i2;
     Some (state, v) }"

definition CZGate_applyKernel :: kernel where
  "CZGate_applyKernel state indices v = do {
     i3 \<leftarrow> load indices 3;
     a3 \<leftarrow> load state i3;
     state \<leftarrow> store state i3 (a3 * (- 1));
     Some (state, v) }"

definition CRotationXGate_applyKernel :: "complex \<Rightarrow> complex \<Rightarrow> kernel" where
  "CRotationXGate_applyKernel c js state indices v = do {
     i2 \<leftarrow> load indices 2;
     a2 \<leftarrow> load state i2;
     v \<leftarrow> store v 0 a2;
     i3 \<leftarrow> load indices 3;
     a3 \<leftarrow> load state i3;
     v \<leftarrow> store v 1 a3;
     v0 \<leftarrow> load v 0;
     v1 \<leftarrow> load v 1;
     state \<leftarrow> store state i2 (c * v0 + js * v1);
     state \<leftarrow> store state i3 (js * v0 + c * v1);
     Some (state, v) }"

definition CRotationYGate_applyKernel :: "complex \<Rightarrow> complex \<Rightarrow> kernel" where
  "CRotationYGate_applyKernel c s state indices v = do {
     i2 \<leftarrow> load indices 2;
     a2 \<leftarrow> load state i2;
     v \<leftarrow> store v 0 a2;
     i3 \<leftarrow> load indices 3;
     a3 \<leftarrow> load state i3;
     v \<leftarrow> store v 1 a3;
     v0 \<leftarrow> load v 0;
     v1 \<leftarrow> load v 1;
     state \<leftarrow> store state i2 (c * v0 - s * v1);
     state \<leftarrow> store state i3 (s * v0 + c * v1);
     Some (state, v) }"

definition CRotationZGate_applyKernel :: "complex \<Rightarrow> complex \<Rightarrow> kernel" where
  "CRotationZGate_applyKernel first second state indices v = do {
     i2 \<leftarrow> load indices 2;
     a2 \<leftarrow> load state i2;
     state \<leftarrow> store state i2 (a2 * first);
     i3 \<leftarrow> load indices 3;
     a3 \<leftarrow> load state i3;
     state \<leftarrow> store state i3 (a3 * second);
     Some (state, v) }"

definition CGeneralRotationGate_applyKernel :: "complex \<Rightarrow> complex \<Rightarrow> complex \<Rightarrow> complex \<Rightarrow> kernel" where
  "CGeneralRotationGate_applyKernel r1 r2 r3 r4 state indices v = do {
     i2 \<leftarrow> load indices 2;
     a2 \<leftarrow> load state i2;
     v \<leftarrow> store v 0 a2;
     i3 \<leftarrow> load indices 3;
     a3 \<leftarrow> load state i3;
     v \<leftarrow> store v 1 a3;
     v0 \<leftarrow> load v 0;
     v1 \<leftarrow> load v 1;
     state \<leftarrow> store state i2 (r1 * v0 + r2 * v1);
     state \<leftarrow> store state i3 (r3 * v0 + r4 * v1);
     Some (state, v) }"

definition ToffoliGate_applyKernel :: kernel where
  "ToffoliGate_applyKernel state indices v = do {
     i6 \<leftarrow> load indices 6;
     i7 \<leftarrow> load indices 7;
     state \<leftarrow> std_swap state i6 i7;
     Some (state, v) }"

definition CSWAPGate_applyKernel :: kernel where
  "CSWAPGate_applyKernel state indices v = do {
     i5 \<leftarrow> load indices 5;
     i6 \<leftarrow> load indices 6;
     state \<leftarrow> std_swap state i5 i6;
     Some (state, v) }"

text \<open>
  Virtual dispatch of \<^verbatim>\<open>applyKernel\<close>.  \<^verbatim>\<open>RotationXGate\<close>, \<^verbatim>\<open>RotationYGate\<close> and
  \<^verbatim>\<open>GeneralRotationGate\<close> define no kernel of their own in \<^verbatim>\<open>Gates.cpp\<close> and inherit the generic
  one.
\<close>

fun applyKernel :: "gate \<Rightarrow> kernel" where
  "applyKernel XGate = XGate_applyKernel"
| "applyKernel YGate = YGate_applyKernel"
| "applyKernel ZGate = ZGate_applyKernel"
| "applyKernel HadamardGate = HadamardGate_applyKernel"
| "applyKernel SGate = SGate_applyKernel"
| "applyKernel TGate = TGate_applyKernel"
| "applyKernel (RotationXGate c js) = AbstractGate_applyKernel (RotationXGate c js)"
| "applyKernel (RotationYGate c s) = AbstractGate_applyKernel (RotationYGate c s)"
| "applyKernel (RotationZGate first second) = RotationZGate_applyKernel first second"
| "applyKernel (PhaseShiftGate shift) = PhaseShiftGate_applyKernel shift"
| "applyKernel (GeneralRotationGate c s r1 r2 r3 r4) =
     AbstractGate_applyKernel (GeneralRotationGate c s r1 r2 r3 r4)"
| "applyKernel CNOTGate = CNOTGate_applyKernel"
| "applyKernel SWAPGate = SWAPGate_applyKernel"
| "applyKernel CZGate = CZGate_applyKernel"
| "applyKernel (CRotationXGate c js) = CRotationXGate_applyKernel c js"
| "applyKernel (CRotationYGate c s) = CRotationYGate_applyKernel c s"
| "applyKernel (CRotationZGate first second) = CRotationZGate_applyKernel first second"
| "applyKernel (CGeneralRotationGate c s r1 r2 r3 r4) = CGeneralRotationGate_applyKernel r1 r2 r3 r4"
| "applyKernel ToffoliGate = ToffoliGate_applyKernel"
| "applyKernel CSWAPGate = CSWAPGate_applyKernel"

text \<open>
  Row \<open>i\<close> of the matrix-vector product, \<open>\<Sum>\<^sub>j matrix[baseIndex + j] \<sqdot> x[j]\<close> with
  \<open>baseIndex = i \<sqdot> n\<close>, and the write the scatter loop performs for \<open>i\<close>.
\<close>

definition rowSum :: "complex list \<Rightarrow> complex list \<Rightarrow> nat \<Rightarrow> nat \<Rightarrow> complex" where
  "rowSum matrix x baseIndex n = (\<Sum>j<n. matrix ! (baseIndex + j) * x ! j)"

definition scatterWrite :: "complex list \<Rightarrow> nat list \<Rightarrow> complex list \<Rightarrow> nat \<Rightarrow> complex list \<Rightarrow> complex list" where
  "scatterWrite matrix indices x i state =
     state[indices ! i := rowSum matrix x (i * length indices) (length indices)]"

text \<open>
  An index tuple for a gate \<open>g\<close> on a state: one position per local basis state, pairwise
  distinct, each inside the buffer.  The driver forms it as \<open>c + K[i]\<close>.
\<close>

definition validIndices :: "gate \<Rightarrow> complex list \<Rightarrow> nat list \<Rightarrow> bool" where
  "validIndices g state indices \<longleftrightarrow>
     length indices = gate_length g \<and> distinct indices \<and> (\<forall>i \<in> set indices. i < length state)"


section \<open>Construction and dispatch\<close>

text \<open>
  Both failures of construction are \<^verbatim>\<open>std::invalid_argument\<close> exceptions, told apart by their
  message.  \<open>BadParameterCount prefix required got\<close> stands for
  "\<open>prefix\<close>: requires \<open>required\<close> arguments but got \<open>got\<close> arguments instead" and
  \<open>UnknownGate label\<close> for "\<open>label\<close> is not a supported gate type".  The remaining
  constructors are the failures of the driver.
\<close>

datatype error =
    BadParameterCount string nat nat
  | UnknownGate string
  | BadWireCount string nat nat
  | WireOutOfRange
  | DuplicateWire
  | BadBufferLength
  | KernelFault

text \<open>\<^verbatim>\<open>validateLength\<close> returns normally (\<open>None\<close>) or throws (\<open>Some\<close>).\<close>

definition validateLength :: "string \<Rightarrow> 'a list \<Rightarrow> nat \<Rightarrow> error option" where
  "validateLength errorPrefix vec requiredLength =
     (if length vec \<noteq> requiredLength
      then Some (BadParameterCount errorPrefix requiredLength (length vec))
      else None)"

text \<open>
  The static members \<^verbatim>\<open>label\<close> and \<^verbatim>\<open>create\<close> of each gate class.  \<^verbatim>\<open>parameters[0]\<close> is read
  only after \<^verbatim>\<open>validateLength\<close> has returned, so it is inside the vector.
\<close>

definition XGate_label :: string where
  "XGate_label = ''PauliX''"

definition XGate_create :: "real list \<Rightarrow> error + gate" where
  "XGate_create parameters =
     (case validateLength XGate_label parameters 0 of
        Some e \<Rightarrow> Inl e
      | None \<Rightarrow> Inr (XGate))"

definition YGate_label :: string where
  "YGate_label = ''PauliY''"

definition YGate_create :: "real list \<Rightarrow> error + gate" where
  "YGate_create parameters =
     (case validateLength YGate_label parameters 0 of
        Some e \<Rightarrow> Inl e
      | None \<Rightarrow> Inr (YGate))"

definition ZGate_label :: string where
  "ZGate_label = ''PauliZ''"

definition ZGate_create :: "real list \<Rightarrow> error + gate" where
  "ZGate_create parameters =
     (case validateLength ZGate_label parameters 0 of
        Some e \<Rightarrow> Inl e
      | None \<Rightarrow> Inr (ZGate))"

definition HadamardGate_label :: string where
  "HadamardGate_label = ''Hadamard''"

definition HadamardGate_create :: "real list \<Rightarrow> error + gate" where
  "HadamardGate_create parameters =
     (case validateLength HadamardGate_label parameters 0 of
        Some e \<Rightarrow> Inl e
      | None \<Rightarrow> Inr (HadamardGate))"

definition SGate_label :: string where
  "SGate_label = ''S''"

definition SGate_create :: "real list \<Rightarrow> error + gate" where
  "SGate_create parameters =
     (case validateLength SGate_label parameters 0 of
        Some e \<Rightarrow> Inl e
      | None \<Rightarrow> Inr (SGate))"

definition TGate_label :: string where
  "TGate_label = ''T''"

definition TGate_create :: "real list \<Rightarrow> error + gate" where
  "TGate_create parameters =
     (case validateLength TGate_label parameters 0 of
        Some e \<Rightarrow> Inl e
      | None \<Rightarrow> Inr (TGate))"

definition RotationXGate_label :: string where
  "RotationXGate_label = ''RX''"

definition RotationXGate_create :: "real list \<Rightarrow> error + gate" where
  "RotationXGate_create parameters =
     (case validateLength RotationXGate_label parameters 1 of
        Some e \<Rightarrow> Inl e
      | None \<Rightarrow> Inr (RotationXGate_new (parameters ! 0)))"

definition RotationYGate_label :: string where
  "RotationYGate_label = ''RY''"

definition RotationYGate_create :: "real list \<Rightarrow> error + gate" where
  "RotationYGate_create parameters =
     (case validateLength RotationYGate_label parameters 1 of
        Some e \<Rightarrow> Inl e
      | None \<Rightarrow> Inr (RotationYGate_new (parameters ! 0)))"

definition RotationZGate_label :: string where
  "RotationZGate_label = ''RZ''"

definition RotationZGate_create :: "real list \<Rightarrow> error + gate" where
  "RotationZGate_create parameters =
     (case validateLength RotationZGate_label parameters 1 of
        Some e \<Rightarrow> Inl e
      | None \<Rightarrow> Inr (RotationZGate_new (parameters ! 0)))"

definition PhaseShiftGate_label :: string where
  "PhaseShiftGate_label = ''PhaseShift''"

definition PhaseShiftGate_create :: "real list \<Rightarrow> error + gate" where
  "PhaseShiftGate_create parameters =
     (case validateLength PhaseShiftGate_label parameters 1 of
        Some e \<Rightarrow> Inl e
      | None \<Rightarrow> Inr (PhaseShiftGate_new (parameters ! 0)))"

definition GeneralRotationGate_label :: string where
  "GeneralRotationGate_label = ''Rot''"

definition GeneralRotationGate_create :: "real list \<Rightarrow> error + gate" where
  "GeneralRotationGate_create parameters =
     (case validateLength GeneralRotationGate_label parameters 3 of
        Some e \<Rightarrow> Inl e
      | None \<Rightarrow> Inr (GeneralRotationGate_new (parameters ! 0) (parameters ! 1) (parameters ! 2)))"

definition CNOTGate_label :: string where
  "CNOTGate_label = ''CNOT''"

definition CNOTGate_create :: "real list \<Rightarrow> error + gate" where
  "CNOTGate_create parameters =
     (case validateLength CNOTGate_label parameters 0 of
        Some e \<Rightarrow> Inl e
      | None \<Rightarrow> Inr (CNOTGate))"

definition SWAPGate_label :: string where
  "SWAPGate_label = ''SWAP''"

definition SWAPGate_create :: "real list \<Rightarrow> error + gate" where
  "SWAPGate_create parameters =
     (case validateLength SWAPGate_label parameters 0 of
        Some e \<Rightarrow> Inl e
      | None \<Rightarrow> Inr (SWAPGate))"

definition CZGate_label :: string where
  "CZGate_label = ''CZ''"

definition CZGate_create :: "real list \<Rightarrow> error + gate" where
  "CZGate_create parameters =
     (case validateLength CZGate_label parameters 0 of
        Some e \<Rightarrow> Inl e
      | None \<Rightarrow> Inr (CZGate))"

definition CRotationXGate_label :: string where
  "CRotationXGate_label = ''CRX''"

definition CRotationXGate_create :: "real list \<Rightarrow> error + gate" where
  "CRotationXGate_create parameters =
     (case validateLength CRotationXGate_label parameters 1 of
        Some e \<Rightarrow> Inl e
      | None \<Rightarrow> Inr (CRotationXGate_new (parameters ! 0)))"

definition CRotationYGate_label :: string where
  "CRotationYGate_label = ''CRY''"

definition CRotationYGate_create :: "real list \<Rightarrow> error + gate" where
  "CRotationYGate_create parameters =
     (case validateLength CRotationYGate_label parameters 1 of
        Some e \<Rightarrow> Inl e
      | None \<Rightarrow> Inr (CRotationYGate_new (parameters ! 0)))"

definition CRotationZGate_label :: string where
  "CRotationZGate_label = ''CRZ''"

definition CRotationZGate_create :: "real list \<Rightarrow> error + gate" where
  "CRotationZGate_create parameters =
     (case validateLength CRotationZGate_label parameters 1 of
        Some e \<Rightarrow> Inl e
      | None \<Rightarrow> Inr (CRotationZGate_new (parameters ! 0)))"

definition CGeneralRotationGate_label :: string where
  "CGeneralRotationGate_label = ''CRot''"

definition CGeneralRotationGate_create :: "real list \<Rightarrow> error + gate" where
  "CGeneralRotationGate_create parameters =
     (case validateLength CGeneralRotationGate_label parameters 3 of
        Some e \<Rightarrow> Inl e
      | None \<Rightarrow> Inr (CGeneralRotationGate_new (parameters ! 0) (parameters ! 1) (parameters ! 2)))"

definition ToffoliGate_label :: string where
  "ToffoliGate_label = ''Toffoli''"

definition ToffoliGate_create :: "real list \<Rightarrow> error + gate" where
  "ToffoliGate_create parameters =
     (case validateLength ToffoliGate_label parameters 0 of
        Some e \<Rightarrow> Inl e
      | None \<Rightarrow> Inr (ToffoliGate))"

definition CSWAPGate_label :: string where
  "CSWAPGate_label = ''CSWAP''"

definition CSWAPGate_create :: "real list \<Rightarrow> error + gate" where
  "CSWAPGate_create parameters =
     (case validateLength CSWAPGate_label parameters 0 of
        Some e \<Rightarrow> Inl e
      | None \<Rightarrow> Inr (CSWAPGate))"

text \<open>
  The dispatch table, a \<^verbatim>\<open>std::map\<close> from label to constructor closure.  \<^verbatim>\<open>emplace\<close> inserts
  only when the key is absent.
\<close>

type_synonym dispatch = "string \<rightharpoonup> (real list \<Rightarrow> error + gate)"

definition addToDispatchTable :: "string \<Rightarrow> (real list \<Rightarrow> error + gate) \<Rightarrow> dispatch \<Rightarrow> dispatch" where
  "addToDispatchTable label create dispatchTable =
     (case dispatchTable label of
        None \<Rightarrow> dispatchTable(label \<mapsto> create)
      | Some _ \<Rightarrow> dispatchTable)"

definition createDispatchTable :: dispatch where
  "createDispatchTable =
     fold (\<lambda>(label, create). addToDispatchTable label create)
       [(XGate_label, XGate_create),
        (YGate_label, YGate_create),
        (ZGate_label, ZGate_create),
        (HadamardGate_label, HadamardGate_create),
        (SGate_label, SGate_create),
        (TGate_label, TGate_create),
        (RotationXGate_label, RotationXGate_create),
        (RotationYGate_label, RotationYGate_create),
        (RotationZGate_label, RotationZGate_create),
        (PhaseShiftGate_label, PhaseShiftGate_create),
        (GeneralRotationGate_label, GeneralRotationGate_create),
        (CNOTGate_label, CNOTGate_create),
        (SWAPGate_label, SWAPGate_create),
        (CZGate_label, CZGate_create),
        (CRotationXGate_label, CRotationXGate_create),
        (CRotationYGate_label, CRotationYGate_create),
        (CRotationZGate_label, CRotationZGate_create),
        (CGeneralRotationGate_label, CGeneralRotationGate_create),
        (ToffoliGate_label, ToffoliGate_create),
        (CSWAPGate_label, CSWAPGate_create)]
       Map.empty"

definition dispatchTable :: dispatch where
  "dispatchTable = createDispatchTable"

definition constructGate :: "string \<Rightarrow> real list \<Rightarrow> error + gate" where
  "constructGate label parameters =
     (case dispatchTable label of
        None \<Rightarrow> Inl (UnknownGate label)
      | Some create \<Rightarrow> create parameters)"

text \<open>
  The gate catalogue of the specification, for comparison: the twenty labels, the parameter
  count of each, and the scalars an instance holds: \<open>cos(\<theta>/2)\<close> and \<open>-i sin(\<theta>/2)\<close> for RX,
  \<open>cos(\<theta>/2)\<close> and \<open>sin(\<theta>/2)\<close> for RY, \<open>e^(-i\<theta>/2)\<close> and \<open>e^(i\<theta>/2)\<close> for RZ, \<open>e^(i\<phi>)\<close> for
  PhaseShift, \<open>cos(\<theta>/2)\<close>, \<open>sin(\<theta>/2)\<close> and the four entries of the ZYZ Euler product for Rot,
  and the same for the controlled forms.
\<close>

definition catalogueLabels :: "string list" where
  "catalogueLabels =
     [''PauliX'', ''PauliY'', ''PauliZ'', ''Hadamard'', ''S'', ''T'', ''RX'', ''RY'', ''RZ'',
      ''PhaseShift'', ''Rot'', ''CNOT'', ''SWAP'', ''CZ'', ''CRX'', ''CRY'', ''CRZ'', ''CRot'',
      ''Toffoli'', ''CSWAP'']"

definition paramCount :: "string \<Rightarrow> nat" where
  "paramCount label =
     (if label \<in> set [''RX'', ''RY'', ''RZ'', ''PhaseShift'', ''CRX'', ''CRY'', ''CRZ''] then 1
      else if label \<in> set [''Rot'', ''CRot''] then 3
      else 0)"

definition eulerZYZ :: "real list \<Rightarrow> complex list" where
  "eulerZYZ ps =
     (let phi = ps ! 0; theta = ps ! 1; omega = ps ! 2;
          c = complex_of_real (cos (theta / 2)); s = complex_of_real (sin (theta / 2))
      in [c, s,
          cis (- (phi + omega) / 2) * c, - cis ((phi - omega) / 2) * s,
          cis (- (phi - omega) / 2) * s, cis ((phi + omega) / 2) * c])"

definition catalogueScalars :: "string \<Rightarrow> real list \<Rightarrow> complex list" where
  "catalogueScalars label ps =
     (if label \<in> set [''RX'', ''CRX'']
        then [complex_of_real (cos (ps ! 0 / 2)), - \<i> * complex_of_real (sin (ps ! 0 / 2))]
      else if label \<in> set [''RY'', ''CRY'']
        then [complex_of_real (cos (ps ! 0 / 2)), complex_of_real (sin (ps ! 0 / 2))]
      else if label \<in> set [''RZ'', ''CRZ'']
        then [cis (- (ps ! 0) / 2), cis (ps ! 0 / 2)]
      else if label = ''PhaseShift'' then [cis (ps ! 0)]
      else if label \<in> set [''Rot'', ''CRot''] then eulerZYZ ps
      else [])"

text \<open>The label of an instance's class and the scalar members it holds.\<close>

fun gateLabel :: "gate \<Rightarrow> string" where
  "gateLabel XGate = XGate_label"
| "gateLabel YGate = YGate_label"
| "gateLabel ZGate = ZGate_label"
| "gateLabel HadamardGate = HadamardGate_label"
| "gateLabel SGate = SGate_label"
| "gateLabel TGate = TGate_label"
| "gateLabel (RotationXGate c js) = RotationXGate_label"
| "gateLabel (RotationYGate c s) = RotationYGate_label"
| "gateLabel (RotationZGate first second) = RotationZGate_label"
| "gateLabel (PhaseShiftGate shift) = PhaseShiftGate_label"
| "gateLabel (GeneralRotationGate c s r1 r2 r3 r4) = GeneralRotationGate_label"
| "gateLabel CNOTGate = CNOTGate_label"
| "gateLabel SWAPGate = SWAPGate_label"
| "gateLabel CZGate = CZGate_label"
| "gateLabel (CRotationXGate c js) = CRotationXGate_label"
| "gateLabel (CRotationYGate c s) = CRotationYGate_label"
| "gateLabel (CRotationZGate first second) = CRotationZGate_label"
| "gateLabel (CGeneralRotationGate c s r1 r2 r3 r4) = CGeneralRotationGate_label"
| "gateLabel ToffoliGate = ToffoliGate_label"
| "gateLabel CSWAPGate = CSWAPGate_label"

fun scalars :: "gate \<Rightarrow> complex list" where
  "scalars XGate = []"
| "scalars YGate = []"
| "scalars ZGate = []"
| "scalars HadamardGate = []"
| "scalars SGate = []"
| "scalars TGate = []"
| "scalars (RotationXGate c js) = [c, js]"
| "scalars (RotationYGate c s) = [c, s]"
| "scalars (RotationZGate first second) = [first, second]"
| "scalars (PhaseShiftGate shift) = [shift]"
| "scalars (GeneralRotationGate c s r1 r2 r3 r4) = [c, s, r1, r2, r3, r4]"
| "scalars CNOTGate = []"
| "scalars SWAPGate = []"
| "scalars CZGate = []"
| "scalars (CRotationXGate c js) = [c, js]"
| "scalars (CRotationYGate c s) = [c, s]"
| "scalars (CRotationZGate first second) = [first, second]"
| "scalars (CGeneralRotationGate c s r1 r2 r3 r4) = [c, s, r1, r2, r3, r4]"
| "scalars ToffoliGate = []"
| "scalars CSWAPGate = []"

text \<open>The entries of the dispatch table as a list, in the order of insertion.\<close>

definition catalogue :: "(string \<times> (real list \<Rightarrow> error + gate)) list" where
  "catalogue =
     [(''PauliX'', XGate_create), (''PauliY'', YGate_create), (''PauliZ'', ZGate_create),
      (''Hadamard'', HadamardGate_create), (''S'', SGate_create), (''T'', TGate_create),
      (''RX'', RotationXGate_create), (''RY'', RotationYGate_create), (''RZ'', RotationZGate_create),
      (''PhaseShift'', PhaseShiftGate_create), (''Rot'', GeneralRotationGate_create),
      (''CNOT'', CNOTGate_create), (''SWAP'', SWAPGate_create), (''CZ'', CZGate_create),
      (''CRX'', CRotationXGate_create), (''CRY'', CRotationYGate_create),
      (''CRZ'', CRotationZGate_create), (''CRot'', CGeneralRotationGate_create),
      (''Toffoli'', ToffoliGate_create), (''CSWAP'', CSWAPGate_create)]"

section \<open>Index generator\<close>

text \<open>
  Modelled from the spec: \<^verbatim>\<open>Apply.cpp\<close>, which defines \<^verbatim>\<open>getIndicesExcluding\<close>,
  \<^verbatim>\<open>generateBitPatterns\<close>, \<^verbatim>\<open>constructAndApplyOperation\<close> and \<^verbatim>\<open>apply\<close>, is not among the source
  files; \<^verbatim>\<open>Apply.hpp\<close> declares and documents them.

  \<open>getIndicesExcluding\<close> "returns the ascending sequence of integers in \<open>[0, N)\<close> not present in
  \<open>excluded\<close>", "fails if any element of \<open>excluded\<close> is \<open>\<ge> N\<close>", and tolerates duplicates.
\<close>

definition getIndicesExcluding :: "nat list \<Rightarrow> nat \<Rightarrow> error + nat list" where
  "getIndicesExcluding excludedIndices qubits =
     (if \<exists>e \<in> set excludedIndices. qubits \<le> e then Inl WireOutOfRange
      else Inr (filter (\<lambda>i. i \<notin> set excludedIndices) [0..<qubits]))"

text \<open>
  Modelled from the spec: \<open>generateBitPatterns\<close> produces "the decimal values for all possible
  bit patterns for a given set of indices, taking other indices to be fixed at 0", qubit 0 being
  the most significant of the \<open>N\<close> bits, and "the qubit indices are evaluated from
  last-to-first": "wires are consumed last-to-first as bits go least-to-most significant".  So
  the last wire toggles fastest: the patterns of the wires after the first one come first with
  the first wire's bit \<open>2^(N-1-w)\<close> clear, then again with it set.  The specification gives no
  value for a wire \<open>\<ge> N\<close>; the truncated difference below is not meant there.
\<close>

primrec generateBitPatterns :: "nat list \<Rightarrow> nat \<Rightarrow> nat list" where
  "generateBitPatterns [] qubits = [0]"
| "generateBitPatterns (w # ws) qubits =
     (let rest = generateBitPatterns ws qubits
      in rest @ map (\<lambda>x. x + 2 ^ (qubits - 1 - w)) rest)"

text \<open>
  The closed form of the specification, for comparison: bit \<open>j\<close> of the output index \<open>p\<close>
  selects \<open>2^(N-1-wires[k-1-j])\<close>.
\<close>

definition bitPatternValue :: "nat list \<Rightarrow> nat \<Rightarrow> nat \<Rightarrow> nat" where
  "bitPatternValue wires qubits p =
     (\<Sum>j<length wires. (p div 2 ^ j mod 2) * 2 ^ (qubits - 1 - wires ! (length wires - 1 - j)))"

section \<open>Driver\<close>

text \<open>
  Modelled from the spec: the driver of \<^verbatim>\<open>Apply.cpp\<close> (see above).  For each operation, in
  order: validate, construct the gate, compute \<open>K = generateBitPatterns(wires, N)\<close>, the
  complement wires and \<open>C\<close>, and for each \<open>c\<close> in \<open>C\<close> invoke the kernel on
  \<open>[c + K[0], \<dots>, c + K[2^k - 1]]\<close>, with one scratch buffer of length \<open>2^k\<close> per operation.
  A failure aborts the call; the buffer, mutated in place, is left as it is at that moment, so
  the model returns the buffer together with the error, if any.  Label and parameter count are
  validated by \<open>constructGate\<close>, the wires next.  The buffer length is validated once, on
  entry.  \<open>KernelFault\<close> marks a kernel that touched memory outside a buffer.
\<close>

type_synonym operation = "string \<times> nat list \<times> real list"

primrec kernelLoop ::
  "gate \<Rightarrow> nat list \<Rightarrow> nat list \<Rightarrow> complex list \<Rightarrow> complex list \<Rightarrow> complex list \<times> error option" where
  "kernelLoop gate internalIndices [] state v = (state, None)"
| "kernelLoop gate internalIndices (c # externalIndices) state v =
     (case applyKernel gate state (map (\<lambda>k. c + k) internalIndices) v of
        None \<Rightarrow> (state, Some KernelFault)
      | Some (state', v') \<Rightarrow> kernelLoop gate internalIndices externalIndices state' v')"

definition constructAndApplyOperation ::
  "complex list \<Rightarrow> string \<Rightarrow> nat list \<Rightarrow> real list \<Rightarrow> nat \<Rightarrow> complex list \<times> error option" where
  "constructAndApplyOperation state opLabel opWires opParams qubits =
     (case constructGate opLabel opParams of
        Inl e \<Rightarrow> (state, Some e)
      | Inr gate \<Rightarrow>
          if length opWires \<noteq> numQubits gate
            then (state, Some (BadWireCount opLabel (numQubits gate) (length opWires)))
          else if \<exists>w \<in> set opWires. qubits \<le> w then (state, Some WireOutOfRange)
          else if \<not> distinct opWires then (state, Some DuplicateWire)
          else
            (case getIndicesExcluding opWires qubits of
               Inl e \<Rightarrow> (state, Some e)
             | Inr externalWires \<Rightarrow>
                 kernelLoop gate
                   (generateBitPatterns opWires qubits)
                   (generateBitPatterns externalWires qubits)
                   state
                   (replicate (gate_length gate) 0)))"

primrec applyOperations :: "complex list \<Rightarrow> operation list \<Rightarrow> nat \<Rightarrow> complex list \<times> error option" where
  "applyOperations state [] qubits = (state, None)"
| "applyOperations state (operation # operations) qubits =
     (case operation of (opLabel, opWires, opParams) \<Rightarrow>
        (case constructAndApplyOperation state opLabel opWires opParams qubits of
           (state', Some e) \<Rightarrow> (state', Some e)
         | (state', None) \<Rightarrow> applyOperations state' operations qubits))"

definition apply' :: "complex list \<Rightarrow> operation list \<Rightarrow> nat \<Rightarrow> complex list \<times> error option" where
  "apply' state operations qubits =
     (if length state \<noteq> 2 ^ qubits then (state, Some BadBufferLength)
      else applyOperations state operations qubits)"

text \<open>One doubling step of \<open>generateBitPatterns\<close>, on the multiset of the patterns.\<close>

definition stepM :: "nat \<Rightarrow> nat multiset \<Rightarrow> nat multiset" where
  "stepM v M = M + image_mset (\<lambda>x. x + v) M"


section \<open>The generic kernel in closed form\<close>

lemma load_simp [simp]: "i < length xs \<Longrightarrow> load xs i = Some (xs ! i)"
  by (simp add: load_def)

lemma store_simp [simp]: "i < length xs \<Longrightarrow> store xs i a = Some (xs[i := a])"
  by (simp add: store_def)

lemma forEach_append: "forEach (xs @ ys) body s = Option.bind (forEach xs body s) (forEach ys body)"
  by (induction xs arbitrary: s) (auto split: Option.bind_splits)

lemma gather_closed:
  "\<forall>i \<in> set idx. i < length state \<Longrightarrow> pos + length idx \<le> length v \<Longrightarrow>
   forEach idx (gatherStep state) (v, pos) =
     Some (take pos v @ map (\<lambda>i. state ! i) idx @ drop (pos + length idx) v, pos + length idx)"
proof (induction idx arbitrary: v pos)
  case Nil
  then show ?case by simp
next
  case (Cons a idx)
  have "take (Suc pos) (v[pos := state ! a]) = take pos v @ [state ! a]"
    using Cons.prems by (simp add: take_Suc_conv_app_nth)
  then show ?case using Cons by (simp add: gatherStep_def)
qed

lemma accumulate_closed:
  "index < length state \<Longrightarrow> baseIndex + n \<le> length matrix \<Longrightarrow> n \<le> length v \<Longrightarrow>
   forEach [0..<n] (accumulateStep matrix v index baseIndex) state =
     Some (state[index := state ! index + rowSum matrix v baseIndex n])"
proof (induction n)
  case 0
  then show ?case by (simp add: rowSum_def)
next
  case (Suc n)
  then show ?case
    by (simp add: forEach_append accumulateStep_def rowSum_def add.assoc)
qed


lemma scatterStep_closed:
  assumes "i < length indices" "indices ! i < length state"
    "length indices * length indices \<le> length matrix" "length indices \<le> length v"
  shows "scatterStep matrix indices v i state = Some (scatterWrite matrix indices v i state)"
proof -
  have "i * length indices + length indices \<le> length indices * length indices"
  proof -
    have "Suc i * length indices \<le> length indices * length indices"
      using assms(1) by (intro mult_le_mono1) simp
    then show ?thesis by (simp add: add.commute)
  qed
  then have "i * length indices + length indices \<le> length matrix"
    using assms(3) by linarith
  then show ?thesis
    using assms by (simp add: scatterStep_def scatterWrite_def accumulate_closed)
qed

lemma length_fold_scatterWrite [simp]:
  "length (fold (scatterWrite matrix indices x) js state) = length state"
  by (induction js arbitrary: state) (simp_all add: scatterWrite_def)

lemma scatter_closed:
  assumes "\<forall>i \<in> set js. i < length indices" "\<forall>i \<in> set indices. i < length state"
    "length indices * length indices \<le> length matrix" "length indices \<le> length v"
  shows "forEach js (scatterStep matrix indices v) state =
           Some (fold (scatterWrite matrix indices v) js state)"
  using assms
proof (induction js arbitrary: state)
  case Nil
  then show ?case by simp
next
  case (Cons j js)
  have "indices ! j < length state"
    using Cons.prems by simp
  then have "scatterStep matrix indices v j state = Some (scatterWrite matrix indices v j state)"
    using Cons.prems by (simp add: scatterStep_closed)
  moreover have "\<forall>i \<in> set indices. i < length (scatterWrite matrix indices v j state)"
    using Cons.prems by (simp add: scatterWrite_def)
  ultimately show ?case
    using Cons.IH [of "scatterWrite matrix indices v j state"] Cons.prems by simp
qed

lemma length_asMatrix: "length (asMatrix g) = gate_length g * gate_length g"
  by (cases g) (simp_all add: gate_length_def)

lemma AbstractGate_applyKernel_closed:
  assumes "length indices = gate_length g" "length v = gate_length g"
    "\<forall>i \<in> set indices. i < length state"
  shows "AbstractGate_applyKernel g state indices v =
           Some (fold (scatterWrite (asMatrix g) indices (map (\<lambda>i. state ! i) indices))
                   [0..<length indices] state,
                 map (\<lambda>i. state ! i) indices)"
proof -
  have "forEach indices (gatherStep state) (v, 0) = Some (map (\<lambda>i. state ! i) indices, length indices)"
    using assms gather_closed [of indices state 0 v] by simp
  moreover have "forEach [0..<length indices]
        (scatterStep (asMatrix g) indices (map (\<lambda>i. state ! i) indices)) state =
      Some (fold (scatterWrite (asMatrix g) indices (map (\<lambda>i. state ! i) indices))
              [0..<length indices] state)"
    using assms by (intro scatter_closed) (simp_all add: length_asMatrix)
  ultimately show ?thesis
    using assms by (simp add: AbstractGate_applyKernel_def)
qed

lemma fold_scatterWrite_frame:
  "p \<notin> (\<lambda>i. indices ! i) ` set js \<Longrightarrow>
   fold (scatterWrite matrix indices x) js state ! p = state ! p"
  by (induction js arbitrary: state) (auto simp: scatterWrite_def)

lemma fold_scatterWrite_hit:
  assumes "distinct (map (\<lambda>i. indices ! i) js)" "i \<in> set js" "indices ! i < length state"
  shows "fold (scatterWrite matrix indices x) js state ! (indices ! i) =
           rowSum matrix x (i * length indices) (length indices)"
  using assms
proof (induction js arbitrary: state)
  case Nil
  then show ?case by simp
next
  case (Cons j js)
  show ?case
  proof (cases "i = j")
    case True
    then have "indices ! i \<notin> (\<lambda>i. indices ! i) ` set js"
      using Cons.prems(1) by auto
    then have "fold (scatterWrite matrix indices x) js (scatterWrite matrix indices x j state) ! (indices ! i)
        = scatterWrite matrix indices x j state ! (indices ! i)"
      by (rule fold_scatterWrite_frame)
    moreover have "scatterWrite matrix indices x j state ! (indices ! i) =
        rowSum matrix x (i * length indices) (length indices)"
      using True Cons.prems(3) by (simp add: scatterWrite_def)
    ultimately show ?thesis by simp
  next
    case False
    then have "i \<in> set js" using Cons.prems(2) by simp
    moreover have "distinct (map (\<lambda>i. indices ! i) js)" using Cons.prems(1) by simp
    moreover have "indices ! i < length (scatterWrite matrix indices x j state)"
      using Cons.prems(3) by (simp add: scatterWrite_def)
    ultimately show ?thesis
      using Cons.IH [of "scatterWrite matrix indices x j state"] by simp
  qed
qed

lemma rowSum_sum_list:
  "rowSum matrix x baseIndex n = sum_list (map (\<lambda>j. matrix ! (baseIndex + j) * x ! j) [0..<n])"
  by (simp add: rowSum_def interv_sum_list_conv_sum_set_nat atLeast0LessThan)

lemma length2E: "length xs = 2 \<Longrightarrow> \<exists>a b. xs = [a, b]"
  by (simp add: eval_nat_numeral length_Suc_conv) blast

lemma length4E: "length xs = 4 \<Longrightarrow> \<exists>a b c d. xs = [a, b, c, d]"
  by (simp add: eval_nat_numeral length_Suc_conv) blast

lemma length8E: "length xs = 8 \<Longrightarrow> \<exists>a b c d e f g h. xs = [a, b, c, d, e, f, g, h]"
  by (simp add: eval_nat_numeral length_Suc_conv) blast

lemma generic_pointwise:
  assumes "length indices = gate_length g" "length v = gate_length g"
    "\<forall>i \<in> set indices. i < length state" "distinct indices"
  shows "\<exists>state' v'. AbstractGate_applyKernel g state indices v = Some (state', v')
     \<and> length state' = length state
     \<and> (\<forall>i \<in> set [0..<length indices]. state' ! (indices ! i) =
            rowSum (asMatrix g) (map (\<lambda>i. state ! i) indices) (i * length indices) (length indices))
     \<and> (\<forall>p. p \<notin> set indices \<longrightarrow> state' ! p = state ! p)"
proof -
  let ?x = "map (\<lambda>i. state ! i) indices"
  let ?s = "fold (scatterWrite (asMatrix g) indices ?x) [0..<length indices] state"
  have a: "AbstractGate_applyKernel g state indices v = Some (?s, ?x)"
    using assms(1-3) by (rule AbstractGate_applyKernel_closed)
  have img: "(\<lambda>i. indices ! i) ` set [0..<length indices] = set indices"
    using map_nth [of indices] by (metis set_map)
  have d: "distinct (map (\<lambda>i. indices ! i) [0..<length indices])"
    using assms(4) by (simp add: map_nth)
  have hit: "\<forall>i \<in> set [0..<length indices]. ?s ! (indices ! i) =
      rowSum (asMatrix g) ?x (i * length indices) (length indices)"
  proof
    fix i assume "i \<in> set [0..<length indices]"
    moreover from this have "indices ! i < length state" using assms(3) by simp
    ultimately show "?s ! (indices ! i) = rowSum (asMatrix g) ?x (i * length indices) (length indices)"
      using d by (intro fold_scatterWrite_hit)
  qed
  have fr: "\<forall>p. p \<notin> set indices \<longrightarrow> ?s ! p = state ! p"
    using img by (auto intro: fold_scatterWrite_frame)
  show ?thesis using a hit fr by simp
qed

lemma list_eq_by_indices:
  assumes "length s1 = length s2"
    "\<forall>i \<in> set [0..<length indices]. s1 ! (indices ! i) = s2 ! (indices ! i)"
    "\<forall>p. p \<notin> set indices \<longrightarrow> s1 ! p = s2 ! p"
  shows "s1 = s2"
proof (rule nth_equalityI)
  show "length s1 = length s2" by fact
next
  fix p assume "p < length s1"
  show "s1 ! p = s2 ! p"
  proof (cases "p \<in> set indices")
    case True
    then obtain i where "i < length indices" "indices ! i = p"
      by (auto simp: in_set_conv_nth)
    then show ?thesis using assms(2) by auto
  next
    case False
    then show ?thesis using assms(3) by simp
  qed
qed

text \<open>A kernel whose result agrees with the matrix-vector product on the tuple and with the
  old state elsewhere computes what the generic kernel computes.\<close>

lemma refines_genericI:
  assumes "validIndices g state indices" "length v = gate_length g"
    "applyKernel g state indices v = Some (s, w)"
    "length s = length state"
    "\<forall>i \<in> set [0..<length indices]. s ! (indices ! i) =
        rowSum (asMatrix g) (map (\<lambda>i. state ! i) indices) (i * length indices) (length indices)"
    "\<forall>p. p \<notin> set indices \<longrightarrow> s ! p = state ! p"
  shows "\<exists>state' v1 v2. applyKernel g state indices v = Some (state', v1)
           \<and> AbstractGate_applyKernel g state indices v = Some (state', v2)"
proof -
  obtain s' v' where g: "AbstractGate_applyKernel g state indices v = Some (s', v')"
     "length s' = length state"
     "\<forall>i \<in> set [0..<length indices]. s' ! (indices ! i) =
            rowSum (asMatrix g) (map (\<lambda>i. state ! i) indices) (i * length indices) (length indices)"
     "\<forall>p. p \<notin> set indices \<longrightarrow> s' ! p = state ! p"
    using generic_pointwise [of indices g v state] assms(1,2) by (auto simp: validIndices_def)
  have "s = s'"
    using assms(4-6) g(2-4) by (intro list_eq_by_indices [of _ _ indices]) simp_all
  then show ?thesis using g(1) assms(3) by simp
qed

subsection \<open>The specialised kernels in closed form\<close>

lemma XGate_closed:
  "a < length state \<Longrightarrow> b < length state \<Longrightarrow>
   XGate_applyKernel state [a, b] v = Some (state[a := state ! b, b := state ! a], v)"
  by (simp add: XGate_applyKernel_def std_swap_def)

lemma YGate_closed:
  "a < length state \<Longrightarrow> b < length state \<Longrightarrow> 0 < length v \<Longrightarrow>
   YGate_applyKernel state [a, b] v =
     Some (state[a := - IMAG * state ! b, b := IMAG * state ! a], v[0 := state ! a])"
  by (simp add: YGate_applyKernel_def)

lemma ZGate_closed:
  "b < length state \<Longrightarrow>
   ZGate_applyKernel state [a, b] v = Some (state[b := state ! b * (- 1)], v)"
  by (simp add: ZGate_applyKernel_def)

lemma HadamardGate_closed:
  "a < length state \<Longrightarrow> b < length state \<Longrightarrow> 1 < length v \<Longrightarrow>
   HadamardGate_applyKernel state [a, b] v =
     Some (state[a := SQRT2INV * (state ! a + state ! b), b := SQRT2INV * (state ! a - state ! b)],
           v[0 := state ! a, 1 := state ! b])"
  using less_trans [of 0 1 "length v"]
  by (simp add: HadamardGate_applyKernel_def HadamardGate_applyKernel_with_def exactArithmetic_def)

lemma SGate_closed:
  "b < length state \<Longrightarrow>
   SGate_applyKernel state [a, b] v = Some (state[b := state ! b * IMAG], v)"
  by (simp add: SGate_applyKernel_def)

lemma TGate_closed:
  "b < length state \<Longrightarrow>
   TGate_applyKernel state [a, b] v = Some (state[b := state ! b * TGate_shift], v)"
  by (simp add: TGate_applyKernel_def)

lemma RotationZGate_closed:
  "a < length state \<Longrightarrow> b < length state \<Longrightarrow>
   RotationZGate_applyKernel first second state [a, b] v =
     Some (state[a := state ! a * first, b := state[a := state ! a * first] ! b * second], v)"
  by (simp add: RotationZGate_applyKernel_def)

lemma PhaseShiftGate_closed:
  "b < length state \<Longrightarrow>
   PhaseShiftGate_applyKernel shift state [a, b] v = Some (state[b := state ! b * shift], v)"
  by (simp add: PhaseShiftGate_applyKernel_def)

lemma CNOTGate_closed:
  "c < length state \<Longrightarrow> d < length state \<Longrightarrow>
   CNOTGate_applyKernel state [a, b, c, d] v = Some (state[c := state ! d, d := state ! c], v)"
  by (simp add: CNOTGate_applyKernel_def std_swap_def)

lemma SWAPGate_closed:
  "b < length state \<Longrightarrow> c < length state \<Longrightarrow>
   SWAPGate_applyKernel state [a, b, c, d] v = Some (state[b := state ! c, c := state ! b], v)"
  by (simp add: SWAPGate_applyKernel_def std_swap_def)

lemma CZGate_closed:
  "d < length state \<Longrightarrow>
   CZGate_applyKernel state [a, b, c, d] v = Some (state[d := state ! d * (- 1)], v)"
  by (simp add: CZGate_applyKernel_def)

lemma CRotationXGate_closed:
  "c < length state \<Longrightarrow> d < length state \<Longrightarrow> 1 < length v \<Longrightarrow>
   CRotationXGate_applyKernel cs js state [a, b, c, d] v =
     Some (state[c := cs * state ! c + js * state ! d, d := js * state ! c + cs * state ! d],
           v[0 := state ! c, 1 := state ! d])"
  using less_trans [of 0 1 "length v"] by (simp add: CRotationXGate_applyKernel_def)

lemma CRotationYGate_closed:
  "c < length state \<Longrightarrow> d < length state \<Longrightarrow> 1 < length v \<Longrightarrow>
   CRotationYGate_applyKernel cs s state [a, b, c, d] v =
     Some (state[c := cs * state ! c - s * state ! d, d := s * state ! c + cs * state ! d],
           v[0 := state ! c, 1 := state ! d])"
  using less_trans [of 0 1 "length v"] by (simp add: CRotationYGate_applyKernel_def)

lemma CRotationZGate_closed:
  "c < length state \<Longrightarrow> d < length state \<Longrightarrow>
   CRotationZGate_applyKernel first second state [a, b, c, d] v =
     Some (state[c := state ! c * first, d := state[c := state ! c * first] ! d * second], v)"
  by (simp add: CRotationZGate_applyKernel_def)

lemma CGeneralRotationGate_closed:
  "c < length state \<Longrightarrow> d < length state \<Longrightarrow> 1 < length v \<Longrightarrow>
   CGeneralRotationGate_applyKernel r1 r2 r3 r4 state [a, b, c, d] v =
     Some (state[c := r1 * state ! c + r2 * state ! d, d := r3 * state ! c + r4 * state ! d],
           v[0 := state ! c, 1 := state ! d])"
  using less_trans [of 0 1 "length v"] by (simp add: CGeneralRotationGate_applyKernel_def)

lemma ToffoliGate_closed:
  "i6 < length state \<Longrightarrow> i7 < length state \<Longrightarrow>
   ToffoliGate_applyKernel state [i0, i1, i2, i3, i4, i5, i6, i7] v =
     Some (state[i6 := state ! i7, i7 := state ! i6], v)"
  by (simp add: ToffoliGate_applyKernel_def std_swap_def)

lemma CSWAPGate_closed:
  "i5 < length state \<Longrightarrow> i6 < length state \<Longrightarrow>
   CSWAPGate_applyKernel state [i0, i1, i2, i3, i4, i5, i6, i7] v =
     Some (state[i5 := state ! i6, i6 := state ! i5], v)"
  by (simp add: CSWAPGate_applyKernel_def std_swap_def)

lemmas kernel_closed =
  XGate_closed YGate_closed ZGate_closed HadamardGate_closed SGate_closed TGate_closed
  RotationZGate_closed PhaseShiftGate_closed CNOTGate_closed SWAPGate_closed CZGate_closed
  CRotationXGate_closed CRotationYGate_closed CRotationZGate_closed CGeneralRotationGate_closed
  ToffoliGate_closed CSWAPGate_closed

lemma v_len: "length v = gate_length g \<Longrightarrow> 1 < length v"
  by (cases g) (simp_all add: gate_length_def)

lemma nth_list_update_neq_sym: "j \<noteq> i \<Longrightarrow> xs[i := x] ! j = xs ! j"
  by simp

lemma applyKernel_pointwise:
  assumes "validIndices g state indices" "length v = gate_length g"
  shows "\<exists>state' v'. applyKernel g state indices v = Some (state', v')
     \<and> length state' = length state
     \<and> (\<forall>i \<in> set [0..<length indices]. state' ! (indices ! i) =
            rowSum (asMatrix g) (map (\<lambda>i. state ! i) indices) (i * length indices) (length indices))
     \<and> (\<forall>p. p \<notin> set indices \<longrightarrow> state' ! p = state ! p)"
proof -
  have vl: "1 < length v" "0 < length v"
    using v_len [OF assms(2)] by auto
  have gen: "\<exists>state' v'. AbstractGate_applyKernel g state indices v = Some (state', v')
     \<and> length state' = length state
     \<and> (\<forall>i \<in> set [0..<length indices]. state' ! (indices ! i) =
            rowSum (asMatrix g) (map (\<lambda>i. state ! i) indices) (i * length indices) (length indices))
     \<and> (\<forall>p. p \<notin> set indices \<longrightarrow> state' ! p = state ! p)"
    using generic_pointwise [of indices g v state] assms by (simp add: validIndices_def)
  consider (one) "numQubits g = 1" | (two) "numQubits g = 2" | (three) "numQubits g = 3"
    by (cases g) simp_all
  then show ?thesis
  proof cases
    case one
    then obtain a b where idx: "indices = [a, b]"
      using assms(1) length2E [of indices] by (auto simp: validIndices_def gate_length_def)
    have ab: "a < length state" "b < length state" "a \<noteq> b" "b \<noteq> a"
      using assms(1) by (auto simp: validIndices_def idx)
    show ?thesis
    proof (cases g)
      case (RotationXGate c js)
      then show ?thesis using gen by simp
    next
      case (RotationYGate c s)
      then show ?thesis using gen by simp
    next
      case (GeneralRotationGate c s r1 r2 r3 r4)
      then show ?thesis using gen by simp
    qed (use one ab vl in \<open>simp_all add: idx kernel_closed rowSum_sum_list ring_distribs nth_list_update_neq_sym\<close>)
  next
    case two
    then obtain a b c d where idx: "indices = [a, b, c, d]"
      using assms(1) length4E [of indices] by (auto simp: validIndices_def gate_length_def)
    have ab: "a < length state" "b < length state" "c < length state" "d < length state"
       "a \<noteq> b" "a \<noteq> c" "a \<noteq> d" "b \<noteq> c" "b \<noteq> d" "c \<noteq> d"
       "b \<noteq> a" "c \<noteq> a" "d \<noteq> a" "c \<noteq> b" "d \<noteq> b" "d \<noteq> c"
      using assms(1) by (auto simp: validIndices_def idx)
    show ?thesis
      by (cases g) (use two ab vl in \<open>simp_all add: idx kernel_closed rowSum_sum_list ring_distribs nth_list_update_neq_sym\<close>)
  next
    case three
    then obtain i0 i1 i2 i3 i4 i5 i6 i7 where idx: "indices = [i0, i1, i2, i3, i4, i5, i6, i7]"
      using assms(1) length8E [of indices] by (auto simp: validIndices_def gate_length_def)
    have ab: "i5 < length state" "i6 < length state" "i7 < length state"
       "i0 \<noteq> i5" "i1 \<noteq> i5" "i2 \<noteq> i5" "i3 \<noteq> i5" "i4 \<noteq> i5" "i6 \<noteq> i5" "i7 \<noteq> i5"
       "i0 \<noteq> i6" "i1 \<noteq> i6" "i2 \<noteq> i6" "i3 \<noteq> i6" "i4 \<noteq> i6" "i5 \<noteq> i6" "i7 \<noteq> i6"
       "i0 \<noteq> i7" "i1 \<noteq> i7" "i2 \<noteq> i7" "i3 \<noteq> i7" "i4 \<noteq> i7" "i5 \<noteq> i7" "i6 \<noteq> i7"
      using assms(1) by (auto simp: validIndices_def idx)
    show ?thesis
      by (cases g) (use three ab vl in \<open>simp_all add: idx kernel_closed rowSum_sum_list ring_distribs nth_list_update_neq_sym\<close>)
  qed
qed



section \<open>C1: the specialised kernels against the generic matrix path\<close>

text \<open>
  C1: for every catalogued gate and every index tuple for it (\<open>validIndices\<close>: \<open>2^k\<close> pairwise
  distinct positions inside the state buffer, which is what the driver hands to a kernel, the
  tuple \<open>c + K[0], \<dots>, c + K[2^k - 1]\<close> of one complement offset) and a scratch vector of length
  \<open>2^k\<close>, the gate's \<open>applyKernel\<close> and the generic \<open>AbstractGate::applyKernel\<close> on the gate's
  \<open>asMatrix()\<close> (gather the \<open>2^k\<close> amplitudes, multiply by the row-major matrix, scatter back)
  both run without fault and produce the same resulting state.  The amplitudes are exact complex
  numbers here, which is the reading of "up to floating-point round-off": the two paths compute
  the same numbers by different sequences of operations, each of which rounds in the code.  The
  finite range of doubles is not part of this statement.
\<close>

theorem applyKernel_refines_generic:
  assumes "validIndices g state indices" "length v = gate_length g"
  shows "\<exists>state' v1 v2. applyKernel g state indices v = Some (state', v1)
           \<and> AbstractGate_applyKernel g state indices v = Some (state', v2)"
proof -
  obtain s1 v1 where k: "applyKernel g state indices v = Some (s1, v1)"
     "length s1 = length state"
     "\<forall>i \<in> set [0..<length indices]. s1 ! (indices ! i) =
        rowSum (asMatrix g) (map (\<lambda>i. state ! i) indices) (i * length indices) (length indices)"
     "\<forall>p. p \<notin> set indices \<longrightarrow> s1 ! p = state ! p"
    using applyKernel_pointwise [OF assms] by blast
  obtain s2 v2 where a: "AbstractGate_applyKernel g state indices v = Some (s2, v2)"
     "length s2 = length state"
     "\<forall>i \<in> set [0..<length indices]. s2 ! (indices ! i) =
        rowSum (asMatrix g) (map (\<lambda>i. state ! i) indices) (i * length indices) (length indices)"
     "\<forall>p. p \<notin> set indices \<longrightarrow> s2 ! p = state ! p"
    using generic_pointwise [of indices g v state] assms by (auto simp: validIndices_def)
  have "s1 = s2"
    using k(2-4) a(2-4) by (intro list_eq_by_indices [of _ _ indices]) simp_all
  then show ?thesis using k(1) a(1) by simp
qed


theorem applyKernel_refines_generic_witness:
  "validIndices HadamardGate [1, 2, 3, 4] [1, 3] \<and> length [0, 0 :: complex] = gate_length HadamardGate \<and>
   applyKernel HadamardGate [1, 2, 3, 4] [1, 3] [0, 0]
     = Some ([1, SQRT2INV * 6, 3, SQRT2INV * (- 2)], [2, 4]) \<and>
   (\<exists>v2. AbstractGate_applyKernel HadamardGate [1, 2, 3, 4] [1, 3] [0, 0]
     = Some ([1, SQRT2INV * 6, 3, SQRT2INV * (- 2)], v2))"
proof -
  have h1: "validIndices HadamardGate [1, 2, 3, 4] [1, 3]"
    by (simp add: validIndices_def gate_length_def)
  have h2: "length [0, 0 :: complex] = gate_length HadamardGate"
    by (simp add: gate_length_def)
  have k: "applyKernel HadamardGate [1, 2, 3, 4] [1, 3] [0, 0]
     = Some ([1, SQRT2INV * 6, 3, SQRT2INV * (- 2)], [2, 4])"
    by (simp add: kernel_closed)
  show ?thesis
    using h1 h2 k applyKernel_refines_generic [OF h1 h2] by auto
qed


section \<open>C4: gather, then scatter\<close>

text \<open>
  C4: the generic \<open>AbstractGate::applyKernel\<close>, applied to a state with an index tuple of
  length \<open>2^k\<close> (scratch vector of the same length, indices inside the buffer), returns with
  \<^item> the scratch vector holding the pre-call amplitude \<open>state[indices[i]]\<close> for every \<open>i\<close>: the
    gather has completed for all indices;
  \<^item> the state obtained from the pre-call state by the writes
    \<open>state[indices[i]] := \<Sum>\<^sub>j matrix[i\<sqdot>2^k + j] \<sqdot> v[j]\<close> for \<open>i = 0, \<dots>, 2^k - 1\<close> in this order,
    where \<open>v\<close> is that gathered vector: no write of the scatter loop precedes a gather, and
    every written value is row \<open>i\<close> of the matrix times the pre-call amplitudes;
  \<^item> hence, the positions of the tuple being pairwise distinct, the amplitude at
    \<open>indices[i]\<close> after the call is that product, for every \<open>i\<close>.
\<close>

theorem AbstractGate_applyKernel_gather_then_scatter:
  assumes "length indices = gate_length g" "length v = gate_length g"
    "\<forall>i \<in> set indices. i < length state"
  shows "\<exists>state' v'. AbstractGate_applyKernel g state indices v = Some (state', v')
     \<and> v' = map (\<lambda>i. state ! i) indices
     \<and> state' = fold (\<lambda>i s. s[indices ! i :=
                    (\<Sum>j<length indices. asMatrix g ! (i * length indices + j) * v' ! j)])
                  [0..<length indices] state
     \<and> (distinct indices \<longrightarrow> (\<forall>i<length indices. state' ! (indices ! i) =
           (\<Sum>j<length indices. asMatrix g ! (i * length indices + j) * state ! (indices ! j))))"
proof -
  let ?x = "map (\<lambda>i. state ! i) indices"
  let ?s = "fold (scatterWrite (asMatrix g) indices ?x) [0..<length indices] state"
  have a: "AbstractGate_applyKernel g state indices v = Some (?s, ?x)"
    using assms by (rule AbstractGate_applyKernel_closed)
  have w: "scatterWrite (asMatrix g) indices ?x =
      (\<lambda>i s. s[indices ! i := (\<Sum>j<length indices. asMatrix g ! (i * length indices + j) * ?x ! j)])"
    by (intro ext) (simp add: scatterWrite_def rowSum_def)
  have d: "\<forall>i<length indices. ?s ! (indices ! i) =
      (\<Sum>j<length indices. asMatrix g ! (i * length indices + j) * state ! (indices ! j))"
    if "distinct indices"
  proof (intro allI impI)
    fix i assume i: "i < length indices"
    have "?s ! (indices ! i) = rowSum (asMatrix g) ?x (i * length indices) (length indices)"
      using generic_pointwise [OF assms that] a i by simp
    then show "?s ! (indices ! i) =
        (\<Sum>j<length indices. asMatrix g ! (i * length indices + j) * state ! (indices ! j))"
      by (simp add: rowSum_def)
  qed
  show ?thesis
    using a d by (simp add: w)
qed

theorem AbstractGate_applyKernel_gather_then_scatter_witness:
  "length [1, 0 :: nat] = gate_length HadamardGate \<and> length [0, 0 :: complex] = gate_length HadamardGate
   \<and> (1 :: nat) < length [1, 2 :: complex] \<and> (0 :: nat) < length [1, 2 :: complex]
   \<and> (\<exists>state' v'. AbstractGate_applyKernel HadamardGate [1, 2] [1, 0] [0, 0] = Some (state', v')
     \<and> v' = [2, 1]
     \<and> state' = [SQRT2INV, 3 * SQRT2INV])"
proof -
  have h1: "length [1, 0 :: nat] = gate_length HadamardGate"
    by (simp add: gate_length_def)
  have h2: "length [0, 0 :: complex] = gate_length HadamardGate"
    by (simp add: gate_length_def)
  have h3: "\<forall>i \<in> set [1, 0 :: nat]. i < length [1, 2 :: complex]"
    by simp
  show ?thesis
    using h1 h2 h3 AbstractGate_applyKernel_gather_then_scatter [OF h1 h2 h3]
    by (simp add: gate_length_def lessThan_Suc eval_nat_numeral)
qed

section \<open>C10: the generic kernel stays in bounds\<close>

text \<open>
  C10: when the index tuple and the scratch vector both have length \<open>2^k\<close> for a gate of arity
  \<open>k\<close> and every index of the tuple is a position of the state buffer, the assertion of
  \<open>AbstractGate::applyKernel\<close> holds and the kernel returns: in the model a failed assertion
  and every read or write outside the state buffer, the scratch vector, the index tuple or the
  matrix is \<open>None\<close>.  Neither buffer changes its length.
\<close>

theorem AbstractGate_applyKernel_in_bounds:
  assumes "length indices = 2 ^ numQubits g" "length v = 2 ^ numQubits g"
    "\<forall>i \<in> set indices. i < length state"
  shows "(length indices = gate_length g \<and> length v = gate_length g)
     \<and> (\<exists>state' v'. AbstractGate_applyKernel g state indices v = Some (state', v')
           \<and> length state' = length state \<and> length v' = length v)"
  using assms AbstractGate_applyKernel_closed [of indices g v state]
  by (simp add: gate_length_def)

theorem AbstractGate_applyKernel_in_bounds_witness:
  "length [2, 0, 3, 1 :: nat] = 2 ^ numQubits CNOTGate
   \<and> length [0, 0, 0, 0 :: complex] = 2 ^ numQubits CNOTGate
   \<and> list_all (\<lambda>i. i < length [1, 2, 3, 4 :: complex]) [2, 0, 3, 1]
   \<and> (\<exists>state' v'. AbstractGate_applyKernel CNOTGate [1, 2, 3, 4] [2, 0, 3, 1] [0, 0, 0, 0]
          = Some (state', v') \<and> length state' = length [1, 2, 3, 4 :: complex]
          \<and> length v' = length [0, 0, 0, 0 :: complex])"
proof -
  have h1: "length [2, 0, 3, 1 :: nat] = 2 ^ numQubits CNOTGate" by simp
  have h2: "length [0, 0, 0, 0 :: complex] = 2 ^ numQubits CNOTGate" by simp
  have h3: "\<forall>i \<in> set [2, 0, 3, 1 :: nat]. i < length [1, 2, 3, 4 :: complex]" by simp
  have h4: "list_all (\<lambda>i. i < length [1, 2, 3, 4 :: complex]) [2, 0, 3, 1]" by simp
  show ?thesis
    using h1 h2 h4 AbstractGate_applyKernel_in_bounds [OF h1 h2 h3] by blast
qed

text \<open>The model does fault: an index outside the state, a short scratch vector, a short tuple.\<close>

lemma AbstractGate_applyKernel_faults:
  "AbstractGate_applyKernel XGate [1, 2] [0, 2] [0, 0] = None"
  "AbstractGate_applyKernel XGate [1, 2] [0, 1] [0] = None"
  "AbstractGate_applyKernel XGate [1, 2] [0] [0, 0] = None"
  by (simp_all add: AbstractGate_applyKernel_def gate_length_def gatherStep_def load_def)

section \<open>C9: a kernel writes inside its index tuple\<close>

text \<open>What every kernel does to the buffers: it returns, keeps their lengths, and writes inside
  the tuple.\<close>

lemma applyKernel_effect:
  assumes "length indices = gate_length g" "length v = gate_length g"
    "\<forall>i \<in> set indices. i < length state"
  shows "\<exists>state' v'. applyKernel g state indices v = Some (state', v')
     \<and> length state' = length state \<and> length v' = length v
     \<and> (\<forall>p. p \<notin> set indices \<longrightarrow> state' ! p = state ! p)
     \<and> (g = ZGate \<longrightarrow> (\<forall>p. p \<noteq> indices ! 1 \<longrightarrow> state' ! p = state ! p))
     \<and> (g = SGate \<longrightarrow> (\<forall>p. p \<noteq> indices ! 1 \<longrightarrow> state' ! p = state ! p))
     \<and> (g = CZGate \<longrightarrow> (\<forall>p. p \<noteq> indices ! 3 \<longrightarrow> state' ! p = state ! p))
     \<and> (g = ToffoliGate \<longrightarrow>
           (\<forall>p. p \<noteq> indices ! 6 \<and> p \<noteq> indices ! 7 \<longrightarrow> state' ! p = state ! p))"
proof -
  have vl: "1 < length v" "0 < length v"
    using v_len [OF assms(2)] by auto
  let ?x = "map (\<lambda>i. state ! i) indices"
  let ?s = "fold (scatterWrite (asMatrix g) indices ?x) [0..<length indices] state"
  have "AbstractGate_applyKernel g state indices v = Some (?s, ?x)"
    using assms by (rule AbstractGate_applyKernel_closed)
  moreover have "(\<lambda>i. indices ! i) ` set [0..<length indices] = set indices"
    using map_nth [of indices] by (metis set_map)
  then have "\<forall>p. p \<notin> set indices \<longrightarrow> ?s ! p = state ! p"
    by (auto intro: fold_scatterWrite_frame)
  ultimately have gen: "\<exists>state' v'. AbstractGate_applyKernel g state indices v = Some (state', v')
     \<and> length state' = length state \<and> length v' = length v
     \<and> (\<forall>p. p \<notin> set indices \<longrightarrow> state' ! p = state ! p)"
    using assms(1,2) by simp
  consider (one) "numQubits g = 1" | (two) "numQubits g = 2" | (three) "numQubits g = 3"
    by (cases g) simp_all
  then show ?thesis
  proof cases
    case one
    then obtain a b where idx: "indices = [a, b]"
      using assms(1) length2E [of indices] by (auto simp: gate_length_def)
    have ab: "a < length state" "b < length state"
      using assms(3) by (auto simp: idx)
    show ?thesis
      by (cases g) (use one ab vl gen in \<open>simp_all add: idx kernel_closed nth_list_update_neq_sym\<close>)
  next
    case two
    then obtain a b c d where idx: "indices = [a, b, c, d]"
      using assms(1) length4E [of indices] by (auto simp: gate_length_def)
    have ab: "a < length state" "b < length state" "c < length state" "d < length state"
      using assms(3) by (auto simp: idx)
    show ?thesis
      by (cases g) (use two ab vl gen in \<open>simp_all add: idx kernel_closed nth_list_update_neq_sym\<close>)
  next
    case three
    then obtain i0 i1 i2 i3 i4 i5 i6 i7 where idx: "indices = [i0, i1, i2, i3, i4, i5, i6, i7]"
      using assms(1) length8E [of indices] by (auto simp: gate_length_def)
    have ab: "i5 < length state" "i6 < length state" "i7 < length state"
      using assms(3) by (auto simp: idx)
    show ?thesis
      by (cases g) (use three ab vl gen in \<open>simp_all add: idx kernel_closed nth_list_update_neq_sym\<close>)
  qed
qed

text \<open>
  C9: for every gate, every state and every index tuple of the gate's length over positions of
  the buffer (scratch vector of the same length), the kernel returns, the buffer keeps its
  length, and the amplitude at every position that is not in the tuple is unchanged.  More
  precisely PauliZ and S write only \<open>indices[1]\<close>, CZ only \<open>indices[3]\<close>, and Toffoli only
  \<open>indices[6]\<close> and \<open>indices[7]\<close>.  The positions of the tuple need not be distinct here.
\<close>

theorem applyKernel_frame:
  assumes "length indices = gate_length g" "length v = gate_length g"
    "\<forall>i \<in> set indices. i < length state"
  shows "\<exists>state' v'. applyKernel g state indices v = Some (state', v')
     \<and> length state' = length state
     \<and> (\<forall>p. p \<notin> set indices \<longrightarrow> state' ! p = state ! p)
     \<and> (g = ZGate \<longrightarrow> (\<forall>p. p \<noteq> indices ! 1 \<longrightarrow> state' ! p = state ! p))
     \<and> (g = SGate \<longrightarrow> (\<forall>p. p \<noteq> indices ! 1 \<longrightarrow> state' ! p = state ! p))
     \<and> (g = CZGate \<longrightarrow> (\<forall>p. p \<noteq> indices ! 3 \<longrightarrow> state' ! p = state ! p))
     \<and> (g = ToffoliGate \<longrightarrow>
           (\<forall>p. p \<noteq> indices ! 6 \<and> p \<noteq> indices ! 7 \<longrightarrow> state' ! p = state ! p))"
  using applyKernel_effect [OF assms] by blast

theorem applyKernel_frame_witness:
  "length [2, 0, 3, 1 :: nat] = gate_length CZGate
   \<and> length [0, 0, 0, 0 :: complex] = gate_length CZGate
   \<and> list_all (\<lambda>i. i < length [1, 2, 3, 4, 5 :: complex]) [2, 0, 3, 1]
   \<and> (\<exists>state' v'. applyKernel CZGate [1, 2, 3, 4, 5] [2, 0, 3, 1] [0, 0, 0, 0] = Some (state', v')
         \<and> length state' = length [1, 2, 3, 4, 5 :: complex]
         \<and> state' ! 4 = [1, 2, 3, 4, 5] ! 4 \<and> state' ! 0 = [1, 2, 3, 4, 5] ! 0)"
proof -
  have h1: "length [2, 0, 3, 1 :: nat] = gate_length CZGate"
    by (simp add: gate_length_def)
  have h2: "length [0, 0, 0, 0 :: complex] = gate_length CZGate"
    by (simp add: gate_length_def)
  have h3: "\<forall>i \<in> set [2, 0, 3, 1 :: nat]. i < length [1, 2, 3, 4, 5 :: complex]"
    by simp
  show ?thesis
    using h1 h2 h3 applyKernel_frame [OF h1 h2 h3] by auto
qed

section \<open>C7: the self-inverse gates\<close>

lemma IMAG_sq: "IMAG * (IMAG * x) = - x"
  by (simp add: IMAG_def flip: mult.assoc)

lemma SQRT2INV_sq: "SQRT2INV * SQRT2INV = 1 / 2"
  by (simp add: SQRT2INV_def flip: of_real_mult)

lemma Hadamard_twice:
  "SQRT2INV * (SQRT2INV * (x + y) + SQRT2INV * (x - y)) = x"
  "SQRT2INV * (SQRT2INV * (x + y) - SQRT2INV * (x - y)) = y"
proof -
  have "SQRT2INV * (SQRT2INV * (x + y) + SQRT2INV * (x - y)) = (SQRT2INV * SQRT2INV) * (2 * x)"
    by (simp add: algebra_simps)
  then show "SQRT2INV * (SQRT2INV * (x + y) + SQRT2INV * (x - y)) = x"
    by (simp add: SQRT2INV_sq)
  have "SQRT2INV * (SQRT2INV * (x + y) - SQRT2INV * (x - y)) = (SQRT2INV * SQRT2INV) * (2 * y)"
    by (simp add: algebra_simps)
  then show "SQRT2INV * (SQRT2INV * (x + y) - SQRT2INV * (x - y)) = y"
    by (simp add: SQRT2INV_sq)
qed

lemma restore2:
  "a < length xs \<Longrightarrow> b < length xs \<Longrightarrow> a \<noteq> b \<Longrightarrow>
   xs[a := p, b := q, a := xs ! a, b := xs ! b] = xs"
  by (auto simp: list_eq_iff_nth_eq nth_list_update)

lemma restore1: "xs[b := q, b := xs ! b] = xs"
  by simp

lemmas twice_simps =
  kernel_closed restore1 restore2 IMAG_sq Hadamard_twice nth_list_update_neq_sym

section \<open>Double precision\<close>

lemma pow2_powr: "pow2 e = 2 powr of_int e"
  by (simp add: pow2_def powr_real_of_int inverse_eq_divide)

text \<open>Inside the binade \<open>[2^e, 2^(e+1))\<close> rounding is to a multiple of \<open>2^(e-52)\<close>.\<close>

lemma fl_binade:
  assumes "pow2 e \<le> \<bar>x\<bar>" "\<bar>x\<bar> < pow2 (e + 1)"
  shows "fl x = of_int (round_even (x / pow2 (e - 52))) * pow2 (e - 52)"
proof -
  have pos: "0 < \<bar>x\<bar>"
    using assms(1) by (smt (verit) pow2_powr powr_gt_zero)
  have "\<lfloor>log 2 \<bar>x\<bar>\<rfloor> = e"
    using assms pos by (subst floor_log_eq_powr_iff) (simp_all add: pow2_powr)
  then show ?thesis
    using pos by (simp add: fl_def Let_def)
qed

lemma round_even_int [simp]: "round_even (of_int n) = n"
  by (simp add: round_even_def)

lemma fl_0 [simp]: "fl 0 = 0"
  by (simp add: fl_def)

lemma pow2_pos [simp]: "0 < pow2 e" "0 \<le> pow2 e"
  by (simp_all add: pow2_def)

lemma pow2_add: "pow2 (a + b) = pow2 a * pow2 b"
  by (simp add: pow2_powr powr_add)

lemma pow2_numeral [simp]:
  "pow2 (numeral n) = 2 ^ numeral n" "pow2 (- numeral n) = 1 / 2 ^ numeral n"
  "pow2 0 = 1" "pow2 1 = 2" "pow2 (- 1) = 1 / 2"
  by (simp_all add: pow2_def)

text \<open>A number with a 53-bit significand is a double, and rounding leaves it alone.\<close>

lemma fl_double:
  assumes "2 ^ 52 \<le> \<bar>m\<bar>" "\<bar>m\<bar> < 2 ^ 53"
  shows "fl (of_int m * pow2 e) = of_int m * pow2 e"
proof -
  have m: "2 ^ 52 \<le> \<bar>real_of_int m\<bar>" "\<bar>real_of_int m\<bar> < 2 ^ 53"
    using assms by (simp_all flip: of_int_abs add: of_int_power_le_of_int_cancel_iff [where b = 2, simplified] of_int_less_numeral_power_cancel_iff)
  have "2 ^ 52 * pow2 e \<le> \<bar>real_of_int m\<bar> * pow2 e"
    using m(1) by (intro mult_right_mono) simp_all
  then have "pow2 (e + 52) \<le> \<bar>of_int m * pow2 e\<bar>"
    by (simp add: pow2_add abs_mult mult.commute)
  moreover have "\<bar>real_of_int m\<bar> * pow2 e < 2 ^ 53 * pow2 e"
    using m(2) by (intro mult_strict_right_mono) simp_all
  then have "\<bar>of_int m * pow2 e\<bar> < pow2 (e + 52 + 1)"
    by (simp add: pow2_add abs_mult mult.commute)
  ultimately have "fl (of_int m * pow2 e)
      = of_int (round_even (of_int m * pow2 e / pow2 (e + 52 - 52))) * pow2 (e + 52 - 52)"
    by (rule fl_binade)
  then show ?thesis by simp
qed

text \<open>The two candidates for \<^verbatim>\<open>SQRT2INV\<close> are the doubles on either side of \<open>1/\<surd>2\<close>.\<close>

lemma SQRT2INV_between: "SQRT2INV_below < 1 / sqrt 2" "1 / sqrt 2 < SQRT2INV_above"
proof -
  have "sqrt (SQRT2INV_below\<^sup>2) < sqrt (1 / 2)"
    unfolding real_sqrt_less_iff by (simp add: SQRT2INV_below_def power2_eq_square)
  then show "SQRT2INV_below < 1 / sqrt 2"
    by (simp add: SQRT2INV_below_def real_sqrt_divide)
  have "sqrt (1 / 2) < sqrt (SQRT2INV_above\<^sup>2)"
    unfolding real_sqrt_less_iff by (simp add: SQRT2INV_above_def power2_eq_square)
  then show "1 / sqrt 2 < SQRT2INV_above"
    by (simp add: SQRT2INV_above_def real_sqrt_divide)
qed

lemma fl_vals:
  "fl 1 = 1"
  "fl SQRT2INV_below = SQRT2INV_below" "fl (SQRT2INV_below + SQRT2INV_below) = SQRT2INV_below + SQRT2INV_below"
  "fl SQRT2INV_above = SQRT2INV_above" "fl (SQRT2INV_above + SQRT2INV_above) = SQRT2INV_above + SQRT2INV_above"
  "fl (1 - 1 / 2 ^ 52) = 1 - 1 / 2 ^ 52" "fl (1 + 1 / 2 ^ 52) = 1 + 1 / 2 ^ 52"
  using fl_double [of "2 ^ 52" "- 52"] fl_double [of 6369051672525772 "- 53"]
    fl_double [of 6369051672525772 "- 52"] fl_double [of 6369051672525773 "- 53"]
    fl_double [of 6369051672525773 "- 52"] fl_double [of "2 ^ 53 - 2" "- 53"]
    fl_double [of "2 ^ 52 + 1" "- 52"]
  by (simp_all add: SQRT2INV_below_def SQRT2INV_above_def)

text \<open>
  \<open>2 s\<^sup>2\<close> rounded: one unit in the last place under 1 for the lower candidate (the exact value
  is \<open>1 - 1.6 \<sqdot> 2^(-53)\<close>, between the doubles \<open>1 - 2^(-52)\<close> and \<open>1 - 2^(-53)\<close> and nearer to the
  first), one over 1 for the upper candidate.
\<close>

lemma fl_sq_below: "fl (SQRT2INV_below * (SQRT2INV_below + SQRT2INV_below)) = 1 - 1 / 2 ^ 52"
proof -
  have "fl (SQRT2INV_below * (SQRT2INV_below + SQRT2INV_below))
      = of_int (round_even (SQRT2INV_below * (SQRT2INV_below + SQRT2INV_below) / pow2 (- 1 - 52))) * pow2 (- 1 - 52)"
    by (rule fl_binade) (simp_all add: SQRT2INV_below_def)
  moreover have "round_even (SQRT2INV_below * (SQRT2INV_below + SQRT2INV_below) / pow2 (- 1 - 52)) = 2 ^ 53 - 2"
    by (simp add: SQRT2INV_below_def round_even_def Let_def)
  ultimately show ?thesis by simp
qed

lemma fl_sq_above: "fl (SQRT2INV_above * (SQRT2INV_above + SQRT2INV_above)) = 1 + 1 / 2 ^ 52"
proof -
  have "fl (SQRT2INV_above * (SQRT2INV_above + SQRT2INV_above))
      = of_int (round_even (SQRT2INV_above * (SQRT2INV_above + SQRT2INV_above) / pow2 (0 - 52))) * pow2 (0 - 52)"
    by (rule fl_binade) (simp_all add: SQRT2INV_above_def)
  moreover have "round_even (SQRT2INV_above * (SQRT2INV_above + SQRT2INV_above) / pow2 (0 - 52)) = 2 ^ 52 + 1"
    by (simp add: SQRT2INV_above_def round_even_def Let_def)
  ultimately show ?thesis by simp
qed

text \<open>Rounding moves a number by at most half a unit in the last place, \<open>2^(-53)\<close> of its size.\<close>

lemma round_even_error: "\<bar>of_int (round_even y) - y\<bar> \<le> 1 / 2"
  unfolding round_even_def Let_def by (simp; linarith)

lemma fl_error: "\<bar>fl x - x\<bar> \<le> \<bar>x\<bar> / 2 ^ 53"
proof (cases "x = 0")
  case True
  then show ?thesis by simp
next
  case False
  define e where "e = \<lfloor>log 2 \<bar>x\<bar>\<rfloor>"
  define ulp where "ulp = pow2 (e - 52)"
  have ulp: "0 < ulp" by (simp add: ulp_def)
  have "of_int e \<le> log 2 \<bar>x\<bar>" by (simp add: e_def)
  then have lo: "pow2 e \<le> \<bar>x\<bar>"
    using False by (simp add: pow2_powr powr_le_iff)
  have f: "fl x = of_int (round_even (x / ulp)) * ulp"
    using False by (simp add: fl_def e_def ulp_def Let_def)
  have "fl x - x = (of_int (round_even (x / ulp)) - x / ulp) * ulp"
    using ulp by (simp add: f algebra_simps)
  then have "\<bar>fl x - x\<bar> = \<bar>of_int (round_even (x / ulp)) - x / ulp\<bar> * ulp"
    using ulp by (simp add: abs_mult)
  also have "\<dots> \<le> 1 / 2 * ulp"
    using ulp round_even_error [of "x / ulp"] by (intro mult_right_mono) simp_all
  also have "\<dots> = pow2 e / 2 ^ 53"
    using pow2_add [of e "- 52"] by (simp add: ulp_def)
  also have "\<dots> \<le> \<bar>x\<bar> / 2 ^ 53"
    using lo by (simp add: divide_right_mono)
  finally show ?thesis .
qed


text \<open>A rounded number is a double: rounding it again changes nothing.\<close>

lemma round_even_ge: "of_int n \<le> y \<Longrightarrow> n \<le> round_even y"
  unfolding round_even_def Let_def by (simp add: le_floor_iff; linarith)

lemma round_even_le: "y \<le> of_int n \<Longrightarrow> round_even y \<le> n"
  unfolding round_even_def Let_def by (simp; linarith)

lemma fl_fl [simp]: "fl (fl x) = fl x"
proof (cases "x = 0")
  case True
  then show ?thesis by simp
next
  case False
  define e where "e = \<lfloor>log 2 \<bar>x\<bar>\<rfloor>"
  define ulp where "ulp = pow2 (e - 52)"
  define m where "m = round_even (x / ulp)"
  have ulp: "0 < ulp" by (simp add: ulp_def)
  have "of_int e \<le> log 2 \<bar>x\<bar>" "log 2 \<bar>x\<bar> < of_int (e + 1)"
    by (simp_all add: e_def)
  then have "pow2 e \<le> \<bar>x\<bar>" "\<bar>x\<bar> < pow2 (e + 1)"
    using False by (simp_all add: pow2_powr powr_le_iff less_powr_iff)
  then have "2 ^ 52 * ulp \<le> \<bar>x\<bar>" "\<bar>x\<bar> < 2 ^ 53 * ulp"
    using pow2_add [of 52 "e - 52"] pow2_add [of 53 "e - 52"] by (simp_all add: ulp_def add.commute)
  then have y: "2 ^ 52 \<le> \<bar>x / ulp\<bar>" "\<bar>x / ulp\<bar> < 2 ^ 53"
    using ulp by (simp_all add: pos_le_divide_eq pos_divide_less_eq)
  have f: "fl x = of_int m * ulp"
    using False by (simp add: fl_def e_def ulp_def m_def Let_def)
  have m: "2 ^ 52 \<le> \<bar>m\<bar>" "\<bar>m\<bar> \<le> 2 ^ 53"
    using y round_even_ge [of "2 ^ 52" "x / ulp"] round_even_le [of "x / ulp" "2 ^ 53"]
      round_even_ge [of "- (2 ^ 53)" "x / ulp"] round_even_le [of "x / ulp" "- (2 ^ 52)"]
    by (simp_all add: m_def abs_if split: if_splits)
  show ?thesis
  proof (cases "\<bar>m\<bar> < 2 ^ 53")
    case True
    then show ?thesis
      using fl_double [of m "e - 52"] m(1) by (simp add: f ulp_def)
  next
    case False
    then have "m = 2 ^ 53 \<or> m = - (2 ^ 53)"
      using m(2) by linarith
    moreover have "pow2 (e - 52 + 1) = 2 * pow2 (e - 52)"
      using pow2_add [of "e - 52" 1] by simp
    ultimately have "of_int m * ulp = of_int (m div 2) * pow2 (e - 52 + 1)" "\<bar>m div 2\<bar> = 2 ^ 52"
      by (auto simp: ulp_def)
    then show ?thesis
      using fl_double [of "m div 2" "e - 52 + 1"] by (simp add: f)
  qed
qed


text \<open>
  The round-off of the two Hadamard assignments run twice, for a factor \<open>s\<close> with
  \<open>\<bar>2 s\<^sup>2 - 1\<bar> \<le> 2^(-52)\<close>: each of the six roundings on the way from \<open>(x, y)\<close> back to \<open>x\<close> adds at
  most \<open>2^(-53)\<close> of the size of its operand.
\<close>

lemma fl_bound:
  assumes "\<bar>z\<bar> \<le> M"
  shows "\<bar>fl z - z\<bar> \<le> M / 2 ^ 53" "\<bar>fl z\<bar> \<le> M + M / 2 ^ 53"
proof -
  have "\<bar>fl z - z\<bar> \<le> \<bar>z\<bar> / 2 ^ 53" by (rule fl_error)
  also have "\<dots> \<le> M / 2 ^ 53" using assms by (simp add: divide_right_mono)
  finally show "\<bar>fl z - z\<bar> \<le> M / 2 ^ 53" .
  then show "\<bar>fl z\<bar> \<le> M + M / 2 ^ 53" using assms by linarith
qed

lemma scale_bound:
  fixes s :: real
  assumes "0 \<le> s" "s \<le> 3 / 4" "\<bar>z\<bar> \<le> M"
  shows "\<bar>s * z\<bar> \<le> 3 / 4 * M"
proof -
  have "\<bar>s * z\<bar> = s * \<bar>z\<bar>" using assms(1) by (simp add: abs_mult)
  also have "\<dots> \<le> 3 / 4 * M" using assms by (intro mult_mono) simp_all
  finally show ?thesis .
qed

lemma fl_scaled_error:
  fixes s z M :: real
  assumes "0 \<le> s" "s \<le> 3 / 4" "\<bar>z\<bar> \<le> M"
  shows "\<bar>fl (s * fl z) - s * z\<bar> \<le> 13 / 2 ^ 56 * M"
proof -
  have M: "0 \<le> M" using assms(3) by linarith
  have b: "\<bar>s * fl z\<bar> \<le> 3 / 4 * (M + M / 2 ^ 53)"
    using assms(1,2) fl_bound(2) [OF assms(3)] by (rule scale_bound)
  have c: "\<bar>fl (s * fl z) - s * fl z\<bar> \<le> 3 / 4 * (M + M / 2 ^ 53) / 2 ^ 53"
    using fl_bound(1) [OF b] .
  have "\<bar>s * (fl z - z)\<bar> \<le> 3 / 4 * (M / 2 ^ 53)"
    using assms(1,2) fl_bound(1) [OF assms(3)] by (rule scale_bound)
  then have d: "\<bar>s * fl z - s * z\<bar> \<le> 3 / 4 * (M / 2 ^ 53)"
    by (simp add: right_diff_distrib)
  have "\<bar>fl (s * fl z) - s * z\<bar> \<le> \<bar>fl (s * fl z) - s * fl z\<bar> + \<bar>s * fl z - s * z\<bar>"
    by linarith
  also have "\<dots> \<le> 3 / 4 * (M + M / 2 ^ 53) / 2 ^ 53 + 3 / 4 * (M / 2 ^ 53)"
    using c d by (rule add_mono)
  also have "\<dots> = (3 / 4 * (1 + 1 / 2 ^ 53) / 2 ^ 53 + 3 / 4 * (1 / 2 ^ 53)) * M"
    by (simp add: algebra_simps)
  also have "\<dots> \<le> 13 / 2 ^ 56 * M"
    using M by (intro mult_right_mono) simp_all
  finally show ?thesis .
qed

lemma Hadamard_second_stage:
  fixes s t S M :: real
  assumes "0 \<le> s" "s \<le> 3 / 4" "\<bar>2 * s * s - 1\<bar> \<le> 1 / 2 ^ 52"
    "\<bar>t\<bar> \<le> M" "\<bar>S - 2 * (s * t)\<bar> \<le> 13 / 2 ^ 55 * M"
  shows "\<bar>fl (s * fl S) - t\<bar> \<le> M / 2 ^ 50"
proof -
  have M: "0 \<le> M" using assms(4) by linarith
  have st: "\<bar>s * t\<bar> \<le> 3 / 4 * M"
    using assms(1,2,4) by (rule scale_bound)
  have "\<bar>S\<bar> \<le> \<bar>S - 2 * (s * t)\<bar> + (\<bar>s * t\<bar> + \<bar>s * t\<bar>)"
    by linarith
  also have "\<dots> \<le> 13 / 2 ^ 55 * M + (3 / 4 * M + 3 / 4 * M)"
    using assms(5) st by (intro add_mono)
  also have "\<dots> = (13 / 2 ^ 55 + 3 / 2) * M"
    by (simp add: algebra_simps)
  also have "\<dots> \<le> 25 / 16 * M"
    using M by (intro mult_right_mono) simp_all
  finally have S: "\<bar>S\<bar> \<le> 25 / 16 * M" .
  have e1: "\<bar>fl (s * fl S) - s * S\<bar> \<le> 13 / 2 ^ 56 * (25 / 16 * M)"
    using assms(1,2) S by (rule fl_scaled_error)
  have "\<bar>s * (S - 2 * (s * t))\<bar> \<le> 3 / 4 * (13 / 2 ^ 55 * M)"
    using assms(1,2,5) by (rule scale_bound)
  then have e2: "\<bar>s * S - s * (2 * (s * t))\<bar> \<le> 3 / 4 * (13 / 2 ^ 55 * M)"
    by (simp add: right_diff_distrib)
  have "\<bar>(2 * s * s - 1) * t\<bar> \<le> 1 / 2 ^ 52 * M"
    unfolding abs_mult using assms(3,4) by (intro mult_mono) simp_all
  moreover have "(2 * s * s - 1) * t = s * (2 * (s * t)) - t"
    by (simp add: algebra_simps)
  ultimately have e3: "\<bar>s * (2 * (s * t)) - t\<bar> \<le> 1 / 2 ^ 52 * M"
    by simp
  have "\<bar>fl (s * fl S) - t\<bar>
      \<le> \<bar>fl (s * fl S) - s * S\<bar> + (\<bar>s * S - s * (2 * (s * t))\<bar> + \<bar>s * (2 * (s * t)) - t\<bar>)"
    by linarith
  also have "\<dots> \<le> 13 / 2 ^ 56 * (25 / 16 * M) + (3 / 4 * (13 / 2 ^ 55 * M) + 1 / 2 ^ 52 * M)"
    using e1 e2 e3 by (intro add_mono)
  also have "\<dots> = (13 / 2 ^ 56 * (25 / 16) + (3 / 4 * (13 / 2 ^ 55) + 1 / 2 ^ 52)) * M"
    by (simp add: algebra_simps)
  also have "\<dots> \<le> 1 / 2 ^ 50 * M"
    using M by (intro mult_right_mono) simp_all
  finally show ?thesis by simp
qed

lemma Hadamard_twice_error:
  fixes s x y :: real
  assumes "0 \<le> s" "s \<le> 3 / 4" "\<bar>2 * s * s - 1\<bar> \<le> 1 / 2 ^ 52"
  shows "\<bar>fl (s * fl (fl (s * fl (x + y)) + fl (s * fl (x - y)))) - x\<bar> \<le> (\<bar>x\<bar> + \<bar>y\<bar>) / 2 ^ 50"
    and "\<bar>fl (s * fl (fl (s * fl (x + y)) - fl (s * fl (x - y)))) - y\<bar> \<le> (\<bar>x\<bar> + \<bar>y\<bar>) / 2 ^ 50"
proof -
  define P where "P = fl (s * fl (x + y))"
  define Q where "Q = fl (s * fl (x - y))"
  define M where "M = \<bar>x\<bar> + \<bar>y\<bar>"
  have xy: "\<bar>x + y\<bar> \<le> M" "\<bar>x - y\<bar> \<le> M" "\<bar>x\<bar> \<le> M" "\<bar>y\<bar> \<le> M"
    by (simp_all add: M_def)
  have p: "\<bar>P - s * (x + y)\<bar> \<le> 13 / 2 ^ 56 * M"
    unfolding P_def using assms(1,2) xy(1) by (rule fl_scaled_error)
  have q: "\<bar>Q - s * (x - y)\<bar> \<le> 13 / 2 ^ 56 * M"
    unfolding Q_def using assms(1,2) xy(2) by (rule fl_scaled_error)
  have "P + Q - 2 * (s * x) = (P - s * (x + y)) + (Q - s * (x - y))"
    by (simp add: algebra_simps)
  then have "\<bar>P + Q - 2 * (s * x)\<bar> \<le> \<bar>P - s * (x + y)\<bar> + \<bar>Q - s * (x - y)\<bar>"
    by simp
  also have "\<dots> \<le> 13 / 2 ^ 56 * M + 13 / 2 ^ 56 * M"
    using p q by (rule add_mono)
  also have "\<dots> = 13 / 2 ^ 55 * M"
    by simp
  finally have "\<bar>fl (s * fl (P + Q)) - x\<bar> \<le> M / 2 ^ 50"
    using assms xy(3) by (intro Hadamard_second_stage)
  then show "\<bar>fl (s * fl (fl (s * fl (x + y)) + fl (s * fl (x - y)))) - x\<bar> \<le> (\<bar>x\<bar> + \<bar>y\<bar>) / 2 ^ 50"
    by (simp only: P_def Q_def M_def)
  have "P - Q - 2 * (s * y) = (P - s * (x + y)) - (Q - s * (x - y))"
    by (simp add: algebra_simps)
  then have "\<bar>P - Q - 2 * (s * y)\<bar> \<le> \<bar>P - s * (x + y)\<bar> + \<bar>Q - s * (x - y)\<bar>"
    by simp
  also have "\<dots> \<le> 13 / 2 ^ 56 * M + 13 / 2 ^ 56 * M"
    using p q by (rule add_mono)
  also have "\<dots> = 13 / 2 ^ 55 * M"
    by simp
  finally have "\<bar>fl (s * fl (P - Q)) - y\<bar> \<le> M / 2 ^ 50"
    using assms xy(4) by (intro Hadamard_second_stage)
  then show "\<bar>fl (s * fl (fl (s * fl (x + y)) - fl (s * fl (x - y)))) - y\<bar> \<le> (\<bar>x\<bar> + \<bar>y\<bar>) / 2 ^ 50"
    by (simp only: P_def Q_def M_def)
qed


text \<open>
  The Hadamard kernel in double precision, in closed form.  The factor \<^verbatim>\<open>SQRT2INV\<close> has
  imaginary part 0, so the complex product scales each component.
\<close>

lemma HadamardGate_double_closed:
  "a < length state \<Longrightarrow> b < length state \<Longrightarrow> 1 < length v \<Longrightarrow>
   HadamardGate_applyKernel_with (doubleArithmetic s) state [a, b] v =
     Some (state[a := (fl (s * fl (fst (state ! a) + fst (state ! b))),
                       fl (s * fl (snd (state ! a) + snd (state ! b)))),
                 b := (fl (s * fl (fst (state ! a) - fst (state ! b))),
                       fl (s * fl (snd (state ! a) - snd (state ! b))))],
           v[0 := state ! a, 1 := state ! b])"
  using less_trans [of 0 1 "length v"]
  by (simp add: HadamardGate_applyKernel_with_def doubleArithmetic_def split_beta)

lemma SQRT2INV_double:
  assumes "s = SQRT2INV_below \<or> s = SQRT2INV_above"
  shows "0 \<le> s" "s \<le> 3 / 4" "\<bar>2 * s * s - 1\<bar> \<le> 1 / 2 ^ 52"
proof -
  have "0 \<le> SQRT2INV_below \<and> SQRT2INV_below \<le> 3 / 4
      \<and> \<bar>2 * SQRT2INV_below * SQRT2INV_below - 1\<bar> \<le> 1 / 2 ^ 52"
    by (simp add: SQRT2INV_below_def)
  moreover have "0 \<le> SQRT2INV_above \<and> SQRT2INV_above \<le> 3 / 4
      \<and> \<bar>2 * SQRT2INV_above * SQRT2INV_above - 1\<bar> \<le> 1 / 2 ^ 52"
    by (simp add: SQRT2INV_above_def)
  ultimately show "0 \<le> s" "s \<le> 3 / 4" "\<bar>2 * s * s - 1\<bar> \<le> 1 / 2 ^ 52"
    using assms by blast+
qed

text \<open>
  Hadamard twice in double precision is the identity up to round-off: with \<^verbatim>\<open>SQRT2INV\<close> either
  double next to \<open>1/\<surd>2\<close>, two runs of the kernel leave every other position alone and return
  each component of the two amplitudes to within \<open>2^(-50)\<close> of the pair's magnitude.
\<close>

lemma HadamardGate_twice_round_off:
  assumes s: "s = SQRT2INV_below \<or> s = SQRT2INV_above"
    and idx: "a < length state" "b < length state" "a \<noteq> b" and v: "length v = 2"
  shows "\<exists>st1 v1 st2 v2.
      HadamardGate_applyKernel_with (doubleArithmetic s) state [a, b] v = Some (st1, v1)
    \<and> HadamardGate_applyKernel_with (doubleArithmetic s) st1 [a, b] v1 = Some (st2, v2)
    \<and> length st2 = length state
    \<and> (\<forall>p. p \<noteq> a \<and> p \<noteq> b \<longrightarrow> st2 ! p = state ! p)
    \<and> \<bar>fst (st2 ! a) - fst (state ! a)\<bar> \<le> (\<bar>fst (state ! a)\<bar> + \<bar>fst (state ! b)\<bar>) / 2 ^ 50
    \<and> \<bar>snd (st2 ! a) - snd (state ! a)\<bar> \<le> (\<bar>snd (state ! a)\<bar> + \<bar>snd (state ! b)\<bar>) / 2 ^ 50
    \<and> \<bar>fst (st2 ! b) - fst (state ! b)\<bar> \<le> (\<bar>fst (state ! a)\<bar> + \<bar>fst (state ! b)\<bar>) / 2 ^ 50
    \<and> \<bar>snd (st2 ! b) - snd (state ! b)\<bar> \<le> (\<bar>snd (state ! a)\<bar> + \<bar>snd (state ! b)\<bar>) / 2 ^ 50"
proof -
  note e = Hadamard_twice_error [OF SQRT2INV_double [OF s]]
  define st1 where "st1 = state[a := (fl (s * fl (fst (state ! a) + fst (state ! b))),
                       fl (s * fl (snd (state ! a) + snd (state ! b)))),
                 b := (fl (s * fl (fst (state ! a) - fst (state ! b))),
                       fl (s * fl (snd (state ! a) - snd (state ! b))))]"
  define v1 where "v1 = v[0 := state ! a, 1 := state ! b]"
  define st2 where "st2 = st1[a := (fl (s * fl (fst (st1 ! a) + fst (st1 ! b))),
                       fl (s * fl (snd (st1 ! a) + snd (st1 ! b)))),
                 b := (fl (s * fl (fst (st1 ! a) - fst (st1 ! b))),
                       fl (s * fl (snd (st1 ! a) - snd (st1 ! b))))]"
  have r1: "HadamardGate_applyKernel_with (doubleArithmetic s) state [a, b] v = Some (st1, v1)"
    unfolding st1_def v1_def using idx v by (intro HadamardGate_double_closed) simp_all
  have l1: "length st1 = length state" "length v1 = 2"
    by (simp_all add: st1_def v1_def v)
  have r2: "HadamardGate_applyKernel_with (doubleArithmetic s) st1 [a, b] v1
      = Some (st2, v1[0 := st1 ! a, 1 := st1 ! b])"
    unfolding st2_def using idx l1 by (intro HadamardGate_double_closed) simp_all
  have n1: "st1 ! a = (fl (s * fl (fst (state ! a) + fst (state ! b))),
                       fl (s * fl (snd (state ! a) + snd (state ! b))))"
       "st1 ! b = (fl (s * fl (fst (state ! a) - fst (state ! b))),
                       fl (s * fl (snd (state ! a) - snd (state ! b))))"
    using idx by (simp_all add: st1_def)
  have n2: "st2 ! a = (fl (s * fl (fst (st1 ! a) + fst (st1 ! b))),
                       fl (s * fl (snd (st1 ! a) + snd (st1 ! b))))"
       "st2 ! b = (fl (s * fl (fst (st1 ! a) - fst (st1 ! b))),
                       fl (s * fl (snd (st1 ! a) - snd (st1 ! b))))"
    using idx l1 by (simp_all add: st2_def)
  have frame: "\<forall>p. p \<noteq> a \<and> p \<noteq> b \<longrightarrow> st2 ! p = state ! p"
    by (simp add: st2_def st1_def)
  have "length st2 = length state"
    by (simp add: st2_def l1)
  moreover have "\<bar>fst (st2 ! a) - fst (state ! a)\<bar> \<le> (\<bar>fst (state ! a)\<bar> + \<bar>fst (state ! b)\<bar>) / 2 ^ 50"
    "\<bar>snd (st2 ! a) - snd (state ! a)\<bar> \<le> (\<bar>snd (state ! a)\<bar> + \<bar>snd (state ! b)\<bar>) / 2 ^ 50"
    "\<bar>fst (st2 ! b) - fst (state ! b)\<bar> \<le> (\<bar>fst (state ! a)\<bar> + \<bar>fst (state ! b)\<bar>) / 2 ^ 50"
    "\<bar>snd (st2 ! b) - snd (state ! b)\<bar> \<le> (\<bar>snd (state ! a)\<bar> + \<bar>snd (state ! b)\<bar>) / 2 ^ 50"
    unfolding n2 n1 fst_conv snd_conv by (rule e)+
  ultimately show ?thesis
    using r1 r2 frame by blast
qed


section \<open>C7: the Hadamard kernel twice, in double precision\<close>

text \<open>
  C7 as stated fails for Hadamard: in the arithmetic of the code, the Hadamard kernel twice
  does not return every amplitude to its original value.  On the one-qubit state \<open>[1, 0]\<close> with
  the index tuple \<open>[0, 1]\<close> the first run gives \<open>[s, s]\<close>, where \<open>s\<close> is the double \<^verbatim>\<open>SQRT2INV\<close>,
  and the second run gives \<open>[s \<sqdot> (s + s), 0]\<close> rounded: \<open>1 - 2^(-52) = 0.9999999999999998\<close> when
  \<open>s\<close> is the double below \<open>1/\<surd>2\<close>, \<open>1 + 2^(-52) = 1.0000000000000002\<close> when it is the double
  above, and not the amplitude 1 of the start in either case.
\<close>

theorem HadamardGate_twice_rounds:
  "HadamardGate_applyKernel_with (doubleArithmetic SQRT2INV_below) [(1, 0), (0, 0)] [0, 1] [(0, 0), (0, 0)]
     = Some ([(SQRT2INV_below, 0), (SQRT2INV_below, 0)], [(1, 0), (0, 0)])
   \<and> HadamardGate_applyKernel_with (doubleArithmetic SQRT2INV_below)
       [(SQRT2INV_below, 0), (SQRT2INV_below, 0)] [0, 1] [(1, 0), (0, 0)]
     = Some ([(1 - 1 / 2 ^ 52, 0), (0, 0)], [(SQRT2INV_below, 0), (SQRT2INV_below, 0)])
   \<and> HadamardGate_applyKernel_with (doubleArithmetic SQRT2INV_above) [(1, 0), (0, 0)] [0, 1] [(0, 0), (0, 0)]
     = Some ([(SQRT2INV_above, 0), (SQRT2INV_above, 0)], [(1, 0), (0, 0)])
   \<and> HadamardGate_applyKernel_with (doubleArithmetic SQRT2INV_above)
       [(SQRT2INV_above, 0), (SQRT2INV_above, 0)] [0, 1] [(1, 0), (0, 0)]
     = Some ([(1 + 1 / 2 ^ 52, 0), (0, 0)], [(SQRT2INV_above, 0), (SQRT2INV_above, 0)])
   \<and> [(1 - 1 / 2 ^ 52, 0), (0, 0)] \<noteq> [(1 :: real, 0 :: real), (0, 0)]
   \<and> [(1 + 1 / 2 ^ 52, 0), (0, 0)] \<noteq> [(1 :: real, 0 :: real), (0, 0)]"
proof -
  have run: "HadamardGate_applyKernel_with (doubleArithmetic s) [(x, 0), (y, 0)] [0, 1] [p, q]
     = Some ([(fl (s * fl (x + y)), 0), (fl (s * fl (x - y)), 0)], [(x, 0), (y, 0)])" for s x y p q
    using HadamardGate_double_closed [of 0 "[(x, 0), (y, 0)]" 1 "[p, q]" s] by simp
  have "fl (SQRT2INV_below * fl (1 + 0)) = SQRT2INV_below"
       "fl (SQRT2INV_below * fl (1 - 0)) = SQRT2INV_below"
       "fl (SQRT2INV_above * fl (1 + 0)) = SQRT2INV_above"
       "fl (SQRT2INV_above * fl (1 - 0)) = SQRT2INV_above"
    by (simp_all add: fl_vals)
  moreover have "fl (SQRT2INV_below * fl (SQRT2INV_below + SQRT2INV_below)) = 1 - 1 / 2 ^ 52"
       "fl (SQRT2INV_below * fl (SQRT2INV_below - SQRT2INV_below)) = 0"
    by (simp_all only: fl_vals fl_sq_below diff_self mult_zero_right fl_0)
  moreover have "fl (SQRT2INV_above * fl (SQRT2INV_above + SQRT2INV_above)) = 1 + 1 / 2 ^ 52"
       "fl (SQRT2INV_above * fl (SQRT2INV_above - SQRT2INV_above)) = 0"
    by (simp_all only: fl_vals fl_sq_above diff_self mult_zero_right fl_0)
  moreover have "1 - 1 / 2 ^ 52 \<noteq> (1 :: real)" "1 + 1 / 2 ^ 52 \<noteq> (1 :: real)"
    by simp_all
  ultimately show ?thesis
    by (simp only: run list.inject prod.inject simp_thms)
qed


section \<open>C7, amended: the self-inverse gates in exact arithmetic\<close>

text \<open>
  C7, amended: for every state and every valid index tuple (\<open>validIndices\<close>: the gate's \<open>2^k\<close>
  pairwise distinct positions of the buffer, as the driver forms them) and a scratch vector of
  length \<open>2^k\<close>, running the kernel of PauliX, PauliY, PauliZ, Hadamard, CNOT, SWAP, CZ, Toffoli
  or CSWAP twice with the same tuple succeeds both times and, with round-off left out, gives
  back the state it started from, amplitude for amplitude.  The kernels of the eight gates other
  than Hadamard only move amplitudes, negate them and multiply them by \<open>\<plusminus>i\<close>, which does not
  round on finite doubles.  The Hadamard case rests on \<open>SQRT2INV\<^sup>2 = 1/2\<close> (\<open>SQRT2INV_sq\<close>), which
  holds of the real number \<open>1/\<surd>2\<close> and of no double, so that in the code Hadamard twice is the
  identity up to floating-point round-off only: \<open>HadamardGate_twice_round_off\<close> bounds the
  round-off in double precision by \<open>2^(-50)\<close> of the size of the two amplitudes.
\<close>

theorem applyKernel_involution:
  assumes "g \<in> {XGate, YGate, ZGate, HadamardGate, CNOTGate, SWAPGate, CZGate, ToffoliGate, CSWAPGate}"
    "validIndices g state indices" "length v = gate_length g"
  shows "\<exists>s1 v1 v2. applyKernel g state indices v = Some (s1, v1)
           \<and> applyKernel g s1 indices v1 = Some (state, v2)"
proof -
  have vl: "1 < length v" "0 < length v"
    using v_len [OF assms(3)] by auto
  consider (one) "g \<in> {XGate, YGate, ZGate, HadamardGate}"
    | (two) "g \<in> {CNOTGate, SWAPGate, CZGate}"
    | (three) "g \<in> {ToffoliGate, CSWAPGate}"
    using assms(1) by auto
  then show ?thesis
  proof cases
    case one
    then obtain a b where idx: "indices = [a, b]"
      using assms(2) length2E [of indices] by (auto simp: validIndices_def gate_length_def)
    have ab: "a < length state" "b < length state" "a \<noteq> b" "b \<noteq> a"
      using assms(2) by (auto simp: validIndices_def idx)
    from one consider "g = XGate" | "g = YGate" | "g = ZGate" | "g = HadamardGate"
      by auto
    then show ?thesis
    proof cases
      case 1
      then show ?thesis using ab by (simp add: idx twice_simps)
    next
      case 2
      then show ?thesis using ab vl by (simp add: idx twice_simps)
    next
      case 3
      then show ?thesis using ab by (simp add: idx twice_simps)
    next
      case 4
      then show ?thesis using ab vl by (simp add: idx twice_simps)
    qed
  next
    case two
    then obtain a b c d where idx: "indices = [a, b, c, d]"
      using assms(2) length4E [of indices] by (auto simp: validIndices_def gate_length_def)
    have ab: "a < length state" "b < length state" "c < length state" "d < length state"
       "b \<noteq> c" "c \<noteq> d" "c \<noteq> b" "d \<noteq> c"
      using assms(2) by (auto simp: validIndices_def idx)
    from two consider "g = CNOTGate" | "g = SWAPGate" | "g = CZGate"
      by auto
    then show ?thesis
    proof cases
      case 1
      then show ?thesis using ab by (simp add: idx twice_simps)
    next
      case 2
      then show ?thesis using ab by (simp add: idx twice_simps)
    next
      case 3
      then show ?thesis using ab by (simp add: idx twice_simps)
    qed
  next
    case three
    then obtain i0 i1 i2 i3 i4 i5 i6 i7 where idx: "indices = [i0, i1, i2, i3, i4, i5, i6, i7]"
      using assms(2) length8E [of indices] by (auto simp: validIndices_def gate_length_def)
    have ab: "i5 < length state" "i6 < length state" "i7 < length state"
       "i6 \<noteq> i5" "i5 \<noteq> i6" "i6 \<noteq> i7" "i7 \<noteq> i6"
      using assms(2) by (auto simp: validIndices_def idx)
    from three consider "g = ToffoliGate" | "g = CSWAPGate"
      by auto
    then show ?thesis
    proof cases
      case 1
      then show ?thesis using ab by (simp add: idx twice_simps)
    next
      case 2
      then show ?thesis using ab by (simp add: idx twice_simps)
    qed
  qed
qed

theorem applyKernel_involution_witness:
  "YGate \<in> {XGate, YGate, ZGate, HadamardGate, CNOTGate, SWAPGate, CZGate, ToffoliGate, CSWAPGate}
   \<and> validIndices YGate [1, 2, 3, 4] [3, 1]
   \<and> length [0, 0 :: complex] = gate_length YGate
   \<and> (\<exists>s1 v1 v2. applyKernel YGate [1, 2, 3, 4] [3, 1] [0, 0] = Some (s1, v1)
           \<and> applyKernel YGate s1 [3, 1] v1 = Some ([1, 2, 3, 4], v2))"
proof -
  have h1: "YGate \<in> {XGate, YGate, ZGate, HadamardGate, CNOTGate, SWAPGate, CZGate, ToffoliGate, CSWAPGate}"
    by simp
  have h2: "validIndices YGate [1, 2, 3, 4] [3, 1]"
    by (simp add: validIndices_def gate_length_def)
  have h3: "length [0, 0 :: complex] = gate_length YGate"
    by (simp add: gate_length_def)
  show ?thesis
    using h1 h2 h3 applyKernel_involution [OF h1 h2 h3] by blast
qed


section \<open>The dispatch table and the constructors\<close>

lemmas label_defs =
  XGate_label_def YGate_label_def ZGate_label_def HadamardGate_label_def SGate_label_def
  TGate_label_def RotationXGate_label_def RotationYGate_label_def RotationZGate_label_def
  PhaseShiftGate_label_def GeneralRotationGate_label_def CNOTGate_label_def SWAPGate_label_def
  CZGate_label_def CRotationXGate_label_def CRotationYGate_label_def CRotationZGate_label_def
  CGeneralRotationGate_label_def ToffoliGate_label_def CSWAPGate_label_def

lemmas create_defs =
  XGate_create_def YGate_create_def ZGate_create_def HadamardGate_create_def SGate_create_def
  TGate_create_def RotationXGate_create_def RotationYGate_create_def RotationZGate_create_def
  PhaseShiftGate_create_def GeneralRotationGate_create_def CNOTGate_create_def SWAPGate_create_def
  CZGate_create_def CRotationXGate_create_def CRotationYGate_create_def CRotationZGate_create_def
  CGeneralRotationGate_create_def ToffoliGate_create_def CSWAPGate_create_def

lemmas new_defs =
  RotationXGate_new_def RotationYGate_new_def RotationZGate_new_def PhaseShiftGate_new_def
  GeneralRotationGate_new_def CRotationXGate_new_def CRotationYGate_new_def CRotationZGate_new_def
  CGeneralRotationGate_new_def

lemma addToDispatchTable_fresh:
  "t label = None \<Longrightarrow> addToDispatchTable label create t = t(label \<mapsto> create)"
  by (simp add: addToDispatchTable_def)

lemma dispatchTable_eq:
  "dispatchTable =
     [''PauliX'' \<mapsto> XGate_create, ''PauliY'' \<mapsto> YGate_create, ''PauliZ'' \<mapsto> ZGate_create,
      ''Hadamard'' \<mapsto> HadamardGate_create, ''S'' \<mapsto> SGate_create, ''T'' \<mapsto> TGate_create,
      ''RX'' \<mapsto> RotationXGate_create, ''RY'' \<mapsto> RotationYGate_create,
      ''RZ'' \<mapsto> RotationZGate_create, ''PhaseShift'' \<mapsto> PhaseShiftGate_create,
      ''Rot'' \<mapsto> GeneralRotationGate_create, ''CNOT'' \<mapsto> CNOTGate_create,
      ''SWAP'' \<mapsto> SWAPGate_create, ''CZ'' \<mapsto> CZGate_create,
      ''CRX'' \<mapsto> CRotationXGate_create, ''CRY'' \<mapsto> CRotationYGate_create,
      ''CRZ'' \<mapsto> CRotationZGate_create, ''CRot'' \<mapsto> CGeneralRotationGate_create,
      ''Toffoli'' \<mapsto> ToffoliGate_create, ''CSWAP'' \<mapsto> CSWAPGate_create]"
  unfolding dispatchTable_def createDispatchTable_def label_defs
  by (simp add: addToDispatchTable_fresh)

lemma dispatchTable_unknown:
  "label \<notin> set catalogueLabels \<Longrightarrow> dispatchTable label = None"
  by (simp add: dispatchTable_eq catalogueLabels_def)

lemma dispatchTable_known:
  "label \<in> set catalogueLabels \<Longrightarrow> \<exists>create. dispatchTable label = Some create"
  by (auto simp: dispatchTable_eq catalogueLabels_def)

lemma dispatchTable_catalogue:
  "dispatchTable label = Some create \<Longrightarrow> (label, create) \<in> set catalogue"
  by (simp add: dispatchTable_eq catalogue_def split: if_splits)

lemma expi_cis: "expi x = cis x"
  by (simp add: expi_def cis_conv_exp Complex_eq mult.commute)

lemma Complex_im: "Complex 0 (- x) = - (\<i> * complex_of_real x)"
  by (simp add: Complex_eq)

lemma Complex_re: "Complex x 0 = complex_of_real x"
  by (simp add: Complex_eq)

lemma catalogue_create:
  "\<forall>(label, create) \<in> set catalogue.
     (length ps \<noteq> paramCount label \<longrightarrow>
        create ps = Inl (BadParameterCount label (paramCount label) (length ps)))
   \<and> (length ps = paramCount label \<longrightarrow>
        (\<exists>g. create ps = Inr g \<and> gateLabel g = label \<and> scalars g = catalogueScalars label ps))"
  unfolding catalogue_def
  by (simp add: create_defs label_defs new_defs validateLength_def paramCount_def
      catalogueScalars_def eulerZYZ_def expi_cis Complex_im Complex_re Let_def
      add_divide_distrib diff_divide_distrib)

section \<open>C5: the parameter count is validated\<close>

text \<open>
  C5: for every catalogued gate, that is every entry \<open>(label, create)\<close> of the dispatch table,
  \<open>create\<close> fails with BadParameterCount if and only if the length of the parameter list
  differs from the parameter count the catalogue declares for the gate; a gate with no
  parameter accepts the empty list and rejects every other list; and on success the instance is
  of the gate's class and holds the scalars the catalogue gives for these parameters.
\<close>

theorem create_parameter_count:
  assumes "dispatchTable label = Some create"
  shows "((\<exists>l r n. create ps = Inl (BadParameterCount l r n)) \<longleftrightarrow> length ps \<noteq> paramCount label)
    \<and> (paramCount label = 0 \<longrightarrow>
          (\<exists>g. create [] = Inr g) \<and> (ps \<noteq> [] \<longrightarrow> (\<exists>l r n. create ps = Inl (BadParameterCount l r n))))
    \<and> (length ps = paramCount label \<longrightarrow>
          (\<exists>g. create ps = Inr g \<and> gateLabel g = label \<and> scalars g = catalogueScalars label ps))"
proof -
  have c: "(label, create) \<in> set catalogue"
    using assms by (rule dispatchTable_catalogue)
  have bad: "create qs = Inl (BadParameterCount label (paramCount label) (length qs))"
    if "length qs \<noteq> paramCount label" for qs
    using catalogue_create [of qs] c that by auto
  have good: "\<exists>g. create qs = Inr g \<and> gateLabel g = label \<and> scalars g = catalogueScalars label qs"
    if "length qs = paramCount label" for qs
    using catalogue_create [of qs] c that by auto
  have "(\<exists>l r n. create ps = Inl (BadParameterCount l r n)) \<longleftrightarrow> length ps \<noteq> paramCount label"
    using bad [of ps] good [of ps] by auto
  moreover have "\<exists>g. create [] = Inr g" if "paramCount label = 0"
    using good [of "[]"] that by auto
  moreover have "\<exists>l r n. create ps = Inl (BadParameterCount l r n)"
    if "paramCount label = 0" "ps \<noteq> []"
    using bad [of ps] that by auto
  ultimately show ?thesis
    using good [of ps] by blast
qed

theorem create_parameter_count_witness:
  "dispatchTable ''RX'' = Some RotationXGate_create
   \<and> RotationXGate_create [0, 0] = Inl (BadParameterCount ''RX'' 1 2)
   \<and> RotationXGate_create [0] = Inr (RotationXGate 1 0)
   \<and> dispatchTable ''CZ'' = Some CZGate_create
   \<and> CZGate_create [] = Inr CZGate
   \<and> CZGate_create [0] = Inl (BadParameterCount ''CZ'' 0 1)"
proof -
  have h: "dispatchTable ''RX'' = Some RotationXGate_create"
    by (simp add: dispatchTable_eq)
  have k: "dispatchTable ''CZ'' = Some CZGate_create"
    by (simp add: dispatchTable_eq)
  have "RotationXGate_create [0, 0] = Inl (BadParameterCount ''RX'' 1 2)"
    using create_parameter_count [OF h, of "[0, 0]"]
    by (simp add: paramCount_def RotationXGate_create_def validateLength_def RotationXGate_label_def)
  moreover have "RotationXGate_create [0] = Inr (RotationXGate 1 0)"
    using create_parameter_count [OF h, of "[0]"]
    by (simp add: paramCount_def RotationXGate_create_def validateLength_def RotationXGate_new_def
        Complex_eq)
  moreover have "CZGate_create [] = Inr CZGate \<and> CZGate_create [0] = Inl (BadParameterCount ''CZ'' 0 1)"
    using create_parameter_count [OF k, of "[0]"]
    by (simp add: paramCount_def CZGate_create_def validateLength_def CZGate_label_def)
  ultimately show ?thesis using h k by simp
qed

section \<open>C6: dispatch by label\<close>

text \<open>
  C6: \<open>constructGate label params\<close> returns a gate instance exactly when \<open>label\<close> is one of
  the twenty catalogued labels, compared character by character, and \<open>params\<close> has the length
  the catalogue declares for it; for every other label it fails with UnknownGate, and for a
  catalogued label with the wrong number of parameters it fails with BadParameterCount.
\<close>

theorem constructGate_catalogue:
  "((\<exists>g. constructGate label ps = Inr g)
      \<longleftrightarrow> label \<in> set catalogueLabels \<and> length ps = paramCount label)
   \<and> (label \<notin> set catalogueLabels \<longrightarrow> constructGate label ps = Inl (UnknownGate label))
   \<and> (label \<in> set catalogueLabels \<and> length ps \<noteq> paramCount label \<longrightarrow>
        constructGate label ps = Inl (BadParameterCount label (paramCount label) (length ps)))"
proof (cases "label \<in> set catalogueLabels")
  case False
  then show ?thesis
    by (simp add: constructGate_def dispatchTable_unknown)
next
  case True
  then obtain create where d: "dispatchTable label = Some create"
    using dispatchTable_known by blast
  then have c: "(label, create) \<in> set catalogue"
    by (rule dispatchTable_catalogue)
  show ?thesis
    using catalogue_create [of ps] c d True
    by (cases "length ps = paramCount label") (auto simp: constructGate_def)
qed

theorem constructGate_catalogue_witness:
  "constructGate ''PauliX'' [] = Inr XGate
   \<and> constructGate ''paulix'' [] = Inl (UnknownGate ''paulix'')
   \<and> constructGate ''PAULIX'' [] = Inl (UnknownGate ''PAULIX'')
   \<and> constructGate ''PauliX'' [1] = Inl (BadParameterCount ''PauliX'' 0 1)"
proof -
  have "constructGate ''PauliX'' [] = Inr XGate"
    using constructGate_catalogue [of "''PauliX''" "[]"]
    by (simp add: constructGate_def dispatchTable_eq XGate_create_def validateLength_def)
  moreover have "constructGate ''paulix'' [] = Inl (UnknownGate ''paulix'')"
    using constructGate_catalogue [of "''paulix''" "[]"]
    by (simp add: catalogueLabels_def)
  moreover have "constructGate ''PAULIX'' [] = Inl (UnknownGate ''PAULIX'')"
    using constructGate_catalogue [of "''PAULIX''" "[]"]
    by (simp add: catalogueLabels_def)
  moreover have "constructGate ''PauliX'' [1] = Inl (BadParameterCount ''PauliX'' 0 1)"
    using constructGate_catalogue [of "''PauliX''" "[1]"]
    by (simp add: catalogueLabels_def paramCount_def)
  ultimately show ?thesis by simp
qed

section \<open>C3: the bit patterns in closed form\<close>

lemma generateBitPatterns_examples:
  "generateBitPatterns [0, 1] 5 = [0, 8, 16, 24]"
  "generateBitPatterns [1, 0] 5 = [0, 16, 8, 24]"
  "generateBitPatterns [2] 5 = [0, 4]"
  by simp_all

lemma length_generateBitPatterns [simp]:
  "length (generateBitPatterns wires qubits) = 2 ^ length wires"
  by (induction wires) (simp_all add: Let_def)

lemma digit_low:
  assumes "j < k"
  shows "(2 ^ k + p) div 2 ^ j mod 2 = p div 2 ^ j mod (2::nat)"
proof -
  obtain d where k: "k = Suc (j + d)"
    using assms less_imp_Suc_add by blast
  have "(p + 2 ^ j * 2 ^ Suc d) div 2 ^ j = 2 ^ Suc d + p div (2 ^ j :: nat)"
    by (rule div_mult_self2) simp
  moreover have "(2::nat) ^ k = 2 ^ j * 2 ^ Suc d"
    by (simp add: k power_add)
  ultimately have "(2 ^ k + p) div 2 ^ j = 2 * 2 ^ d + p div (2 ^ j :: nat)"
    by (simp add: add.commute)
  then show ?thesis by simp
qed

lemma bitPatternValue_Cons_low:
  assumes "p < 2 ^ length ws"
  shows "bitPatternValue (w # ws) qubits p = bitPatternValue ws qubits p"
proof -
  have "(\<Sum>j<length ws. (p div 2 ^ j mod 2) * 2 ^ (qubits - 1 - (w # ws) ! (length ws - j)))
      = (\<Sum>j<length ws. (p div 2 ^ j mod 2) * 2 ^ (qubits - 1 - ws ! (length ws - 1 - j)))"
    by (intro sum.cong refl) (simp add: nth_Cons')
  then show ?thesis
    using assms by (simp add: bitPatternValue_def)
qed

lemma bitPatternValue_Cons_high:
  assumes "p < 2 ^ length ws"
  shows "bitPatternValue (w # ws) qubits (2 ^ length ws + p)
       = bitPatternValue ws qubits p + 2 ^ (qubits - 1 - w)"
proof -
  have "(\<Sum>j<length ws. ((2 ^ length ws + p) div 2 ^ j mod 2)
            * 2 ^ (qubits - 1 - (w # ws) ! (length ws - j)))
      = (\<Sum>j<length ws. (p div 2 ^ j mod 2) * 2 ^ (qubits - 1 - ws ! (length ws - 1 - j)))"
    by (intro sum.cong refl) (simp add: nth_Cons' digit_low)
  moreover have "(2 ^ length ws + p) div 2 ^ length ws mod 2 = (1::nat)"
    using assms div_mult_self2 [of "2 ^ length ws" p 1] by (simp add: add.commute)
  ultimately show ?thesis
    by (simp add: bitPatternValue_def)
qed

lemma generateBitPatterns_nth:
  "p < 2 ^ length wires \<Longrightarrow> generateBitPatterns wires qubits ! p = bitPatternValue wires qubits p"
proof (induction wires arbitrary: p)
  case Nil
  then show ?case by (simp add: bitPatternValue_def)
next
  case (Cons w ws)
  show ?case
  proof (cases "p < 2 ^ length ws")
    case True
    then show ?thesis
      using Cons.IH [of p] by (simp add: Let_def nth_append bitPatternValue_Cons_low)
  next
    case False
    define q where "q = p - 2 ^ length ws"
    have q: "q < 2 ^ length ws" "p = 2 ^ length ws + q"
      using False Cons.prems by (simp_all add: q_def)
    show ?thesis
      using Cons.IH [of q] q(1)
      by (simp add: Let_def nth_append q(2) bitPatternValue_Cons_high)
  qed
qed

text \<open>
  C3: for every wire list \<open>w\<close> of length \<open>k\<close> with entries less than \<open>N\<close>,
  \<open>generateBitPatterns(w, N)\<close> has length \<open>2^k\<close>, and its \<open>p\<close>-th element, \<open>p\<close> with binary digits
  \<open>b\<^sub>k\<^sub>-\<^sub>1 \<dots> b\<^sub>0\<close>, is \<open>\<Sum>\<^sub>j b\<^sub>j \<sqdot> 2^(N-1-w[k-1-j])\<close>; for \<open>N = 5\<close>, wires \<open>[0, 1]\<close> give \<open>[0, 8, 16, 24]\<close>,
  wires \<open>[1, 0]\<close> give \<open>[0, 16, 8, 24]\<close> and wires \<open>[2]\<close> give \<open>[0, 4]\<close>.
\<close>

theorem generateBitPatterns_closed_form:
  assumes "\<forall>w \<in> set wires. w < qubits"
  shows "length (generateBitPatterns wires qubits) = 2 ^ length wires
    \<and> (\<forall>p < 2 ^ length wires.
          generateBitPatterns wires qubits ! p
            = (\<Sum>j<length wires. (p div 2 ^ j mod 2) * 2 ^ (qubits - 1 - wires ! (length wires - 1 - j))))
    \<and> generateBitPatterns [0, 1] 5 = [0, 8, 16, 24]
    \<and> generateBitPatterns [1, 0] 5 = [0, 16, 8, 24]
    \<and> generateBitPatterns [2] 5 = [0, 4]"
  using generateBitPatterns_nth [of _ wires qubits]
  by (simp add: bitPatternValue_def)

theorem generateBitPatterns_closed_form_witness:
  "list_all (\<lambda>w. w < (3 :: nat)) [2, 0]
   \<and> length (generateBitPatterns [2, 0] 3) = 4
   \<and> generateBitPatterns [2, 0] 3 = [0, 4, 1, 5]"
proof -
  have h: "\<forall>w \<in> set [2, 0 :: nat]. w < 3" by simp
  have "length (generateBitPatterns [2, 0] 3) = 2 ^ length [2, 0 :: nat]"
    using generateBitPatterns_closed_form [OF h] by blast
  then show ?thesis
    by simp
qed



section \<open>C2: kernel and complement offsets decompose the index range\<close>

lemma stepM_commute: "stepM a (stepM b M) = stepM b (stepM a M)"
  by (simp add: stepM_def multiset.map_comp comp_def add.commute add.left_commute add.assoc)

lemma mset_generateBitPatterns:
  "mset (generateBitPatterns ws qubits) = foldr (\<lambda>w. stepM (2 ^ (qubits - 1 - w))) ws {#0#}"
  by (induction ws) (simp_all add: Let_def stepM_def)

lemma mset_sums_append:
  "mset (concat (map (\<lambda>c. map (\<lambda>k. c + k) (xs @ ys)) cs))
     = mset (concat (map (\<lambda>c. map (\<lambda>k. c + k) xs) cs))
       + mset (concat (map (\<lambda>c. map (\<lambda>k. c + k) ys) cs))"
  by (induction cs) simp_all

lemma mset_sums_shift:
  "mset (concat (map (\<lambda>c. map (\<lambda>k. c + k) (map (\<lambda>x. x + v) xs)) (cs :: nat list)))
     = image_mset (\<lambda>x. x + v) (mset (concat (map (\<lambda>c. map (\<lambda>k. c + k) xs) cs)))"
proof -
  have "concat (map (\<lambda>c. map (\<lambda>k. c + k) (map (\<lambda>x. x + v) xs)) (cs :: nat list))
      = map (\<lambda>x. x + v) (concat (map (\<lambda>c. map (\<lambda>k. c + k) xs) cs))"
    by (induction cs) (simp_all add: add.assoc)
  then show ?thesis by simp
qed

lemma mset_sums_generateBitPatterns:
  "mset (concat (map (\<lambda>c. map (\<lambda>k. c + k) (generateBitPatterns ws qubits)) cs))
     = foldr (\<lambda>w. stepM (2 ^ (qubits - 1 - w))) ws (mset cs)"
proof (induction ws)
  case Nil
  show ?case by (induction cs) simp_all
next
  case (Cons w ws)
  let ?K = "generateBitPatterns ws qubits"
  let ?v = "2 ^ (qubits - 1 - w) :: nat"
  have "generateBitPatterns (w # ws) qubits = ?K @ map (\<lambda>x. x + ?v) ?K"
    by (simp add: Let_def)
  then have "mset (concat (map (\<lambda>c. map (\<lambda>k. c + k) (generateBitPatterns (w # ws) qubits)) cs))
      = stepM ?v (mset (concat (map (\<lambda>c. map (\<lambda>k. c + k) ?K) cs)))"
    by (simp only: mset_sums_append mset_sums_shift stepM_def)
  then show ?case
    by (simp only: Cons.IH foldr.simps comp_def)
qed

lemma foldr_stepM_perm:
  assumes "mset xs = mset ys"
  shows "foldr (\<lambda>w. stepM (f w)) xs M = foldr (\<lambda>w. stepM (f w)) ys M"
proof -
  have "fold (\<lambda>w. stepM (f w)) (rev xs) = fold (\<lambda>w. stepM (f w)) (rev ys)"
    by (rule fold_multiset_equiv) (simp_all add: assms fun_eq_iff stepM_commute)
  then show ?thesis by (simp add: foldr_conv_fold)
qed

lemma generateBitPatterns_upt:
  "m \<le> qubits \<Longrightarrow> generateBitPatterns [qubits - m..<qubits] qubits = [0..<2 ^ m]"
proof (induction m)
  case 0
  then show ?case by simp
next
  case (Suc m)
  have u: "[qubits - Suc m..<qubits] = (qubits - Suc m) # [qubits - m..<qubits]"
    using Suc.prems by (simp add: upt_conv_Cons Suc_diff_Suc)
  have e: "qubits - 1 - (qubits - Suc m) = m"
    using Suc.prems by simp
  have "map (\<lambda>x. x + 2 ^ m) [0..<2 ^ m] = [2 ^ m..<2 ^ m + 2 ^ m]"
    by (rule map_add_upt)
  moreover have "[0..<2 ^ m + 2 ^ m] = [0..<2 ^ m] @ [2 ^ m..<2 ^ m + 2 ^ m]"
    by (rule upt_add_eq_append) simp
  ultimately show ?case
    using Suc by (simp add: u e Let_def mult_2)
qed

lemma mset_wires_complement:
  assumes "distinct wires" "\<forall>w \<in> set wires. w < qubits"
  shows "mset (wires @ filter (\<lambda>i. i \<notin> set wires) [0..<qubits]) = mset [0..<qubits]"
proof -
  have "mset wires = mset (filter (\<lambda>i. i \<in> set wires) [0..<qubits])"
    using assms by (intro iffD1 [OF set_eq_iff_mset_eq_distinct]) auto
  then show ?thesis
    using multiset_partition [of "mset [0..<qubits]" "\<lambda>i. i \<in> set wires"]
    by (simp del: mset_upt)
qed

lemma index_bijection_aux:
  assumes "distinct wires" "\<forall>w \<in> set wires. w < qubits"
  shows "mset (concat (map (\<lambda>c. map (\<lambda>k. c + k) (generateBitPatterns wires qubits))
                 (generateBitPatterns (filter (\<lambda>i. i \<notin> set wires) [0..<qubits]) qubits)))
           = mset [0..<2 ^ qubits]"
proof -
  let ?cw = "filter (\<lambda>i. i \<notin> set wires) [0..<qubits]"
  let ?f = "\<lambda>w. stepM (2 ^ (qubits - 1 - w))"
  have "mset (concat (map (\<lambda>c. map (\<lambda>k. c + k) (generateBitPatterns wires qubits))
                 (generateBitPatterns ?cw qubits)))
      = foldr ?f wires (foldr ?f ?cw {#0#})"
    by (simp only: mset_sums_generateBitPatterns mset_generateBitPatterns)
  also have "\<dots> = foldr ?f (wires @ ?cw) {#0#}"
    by simp
  also have "\<dots> = foldr ?f [0..<qubits] {#0#}"
    using assms by (intro foldr_stepM_perm mset_wires_complement)
  also have "\<dots> = mset (generateBitPatterns [qubits - qubits..<qubits] qubits)"
    by (simp only: mset_generateBitPatterns diff_self_eq_0)
  also have "\<dots> = mset [0..<2 ^ qubits]"
    by (simp only: generateBitPatterns_upt [OF order_refl])
  finally show ?thesis .
qed

text \<open>
  C2: for every qubit count \<open>N\<close> and every list of distinct wires each less than \<open>N\<close>, with
  \<open>K = generateBitPatterns(wires, N)\<close> and
  \<open>C = generateBitPatterns(getIndicesExcluding(wires, N), N)\<close>, the multiset of the sums
  \<open>c + K[i]\<close>, \<open>c\<close> in \<open>C\<close> and \<open>i < 2^k\<close>, is \<open>{0, \<dots>, 2^N - 1}\<close>, each element once.
\<close>

theorem index_bijection:
  assumes "distinct wires" "\<forall>w \<in> set wires. w < qubits"
  shows "\<exists>externalWires. getIndicesExcluding wires qubits = Inr externalWires
     \<and> mset [c + k. c \<leftarrow> generateBitPatterns externalWires qubits,
                     k \<leftarrow> generateBitPatterns wires qubits]
         = mset [0..<2 ^ qubits]"
proof -
  have "getIndicesExcluding wires qubits = Inr (filter (\<lambda>i. i \<notin> set wires) [0..<qubits])"
    using assms(2) by (auto simp: getIndicesExcluding_def)
  moreover have "[c + k. c \<leftarrow> generateBitPatterns (filter (\<lambda>i. i \<notin> set wires) [0..<qubits]) qubits,
                     k \<leftarrow> generateBitPatterns wires qubits]
      = concat (map (\<lambda>c. map (\<lambda>k. c + k) (generateBitPatterns wires qubits))
                 (generateBitPatterns (filter (\<lambda>i. i \<notin> set wires) [0..<qubits]) qubits))"
    by (simp add: concat_map_singleton)
  ultimately show ?thesis
    using index_bijection_aux [OF assms] by (simp del: mset_upt)
qed

theorem index_bijection_witness:
  "distinct [2, 0 :: nat] \<and> list_all (\<lambda>w. w < (3 :: nat)) [2, 0]
   \<and> getIndicesExcluding [2, 0] 3 = Inr [1]
   \<and> generateBitPatterns [1] 3 = [0, 2]
   \<and> generateBitPatterns [2, 0] 3 = [0, 4, 1, 5]
   \<and> mset [c + k. c \<leftarrow> generateBitPatterns [1] 3, k \<leftarrow> generateBitPatterns [2, 0] 3]
       = mset [0..<2 ^ 3]"
proof -
  have h1: "distinct [2, 0 :: nat]" by simp
  have h2: "\<forall>w \<in> set [2, 0 :: nat]. w < 3" by simp
  have e: "getIndicesExcluding [2, 0] 3 = Inr [1]"
    by (simp add: getIndicesExcluding_def upt_rec)
  show ?thesis
    using index_bijection [OF h1 h2] by (simp add: e del: mset_upt)
qed

section \<open>C8: a failing operation aborts the call cleanly\<close>

lemma constructGate_error:
  assumes "constructGate label ps = Inl e"
  shows "e = UnknownGate label \<or> e = BadParameterCount label (paramCount label) (length ps)"
proof (cases "dispatchTable label")
  case None
  then show ?thesis using assms by (simp add: constructGate_def)
next
  case (Some create)
  then have "(label, create) \<in> set catalogue"
    by (rule dispatchTable_catalogue)
  then show ?thesis
    using catalogue_create [of ps] assms Some
    by (cases "length ps = paramCount label") (auto simp: constructGate_def)
qed

lemma offsets_in_range:
  assumes "distinct wires" "\<forall>w \<in> set wires. w < qubits"
    "c \<in> set (generateBitPatterns (filter (\<lambda>i. i \<notin> set wires) [0..<qubits]) qubits)"
    "k \<in> set (generateBitPatterns wires qubits)"
  shows "c + k < 2 ^ qubits"
proof -
  let ?L = "concat (map (\<lambda>c. map (\<lambda>k. c + k) (generateBitPatterns wires qubits))
                 (generateBitPatterns (filter (\<lambda>i. i \<notin> set wires) [0..<qubits]) qubits))"
  have "set ?L = set [0..<2 ^ qubits]"
    using index_bijection_aux [OF assms(1,2)] by (rule mset_eq_setD)
  moreover have "c + k \<in> set ?L"
    using assms(3,4) by auto
  ultimately show ?thesis by simp
qed

lemma kernelLoop_runs:
  assumes "length internalIndices = gate_length gate" "length v = gate_length gate"
    "\<forall>c \<in> set externalIndices. \<forall>k \<in> set internalIndices. c + k < length state"
  shows "\<exists>state'. kernelLoop gate internalIndices externalIndices state v = (state', None)
           \<and> length state' = length state"
  using assms
proof (induction externalIndices arbitrary: state v)
  case Nil
  then show ?case by simp
next
  case (Cons c cs)
  have "\<forall>i \<in> set (map (\<lambda>k. c + k) internalIndices). i < length state"
    using Cons.prems(3) by simp
  then obtain s1 v1 where k: "applyKernel gate state (map (\<lambda>k. c + k) internalIndices) v = Some (s1, v1)"
      "length s1 = length state" "length v1 = length v"
    using applyKernel_effect [of "map (\<lambda>k. c + k) internalIndices" gate v state] Cons.prems(1,2)
    by auto
  have "\<exists>state'. kernelLoop gate internalIndices cs s1 v1 = (state', None) \<and> length state' = length s1"
    using Cons.prems k(2,3) by (intro Cons.IH) simp_all
  then show ?case using k by simp
qed

lemma constructAndApplyOperation_effect:
  assumes "length state = 2 ^ qubits"
    "constructAndApplyOperation state opLabel opWires opParams qubits = (state', r)"
  shows "length state' = length state \<and> r \<noteq> Some KernelFault \<and> (r \<noteq> None \<longrightarrow> state' = state)"
proof (cases "constructGate opLabel opParams")
  case (Inl e)
  then have "e \<noteq> KernelFault"
    using constructGate_error [of opLabel opParams e] by auto
  then show ?thesis
    using assms(2) Inl by (auto simp: constructAndApplyOperation_def)
next
  case (Inr gate)
  show ?thesis
  proof (cases "length opWires = numQubits gate \<and> (\<forall>w \<in> set opWires. w < qubits) \<and> distinct opWires")
    case False
    then show ?thesis
      using assms(2) Inr
      by (auto simp: constructAndApplyOperation_def not_less split: if_splits)
  next
    case True
    let ?ext = "filter (\<lambda>i. i \<notin> set opWires) [0..<qubits]"
    have ext: "getIndicesExcluding opWires qubits = Inr ?ext"
      using True by (auto simp: getIndicesExcluding_def)
    have "\<exists>s. kernelLoop gate (generateBitPatterns opWires qubits) (generateBitPatterns ?ext qubits)
            state (replicate (gate_length gate) 0) = (s, None) \<and> length s = length state"
    proof (rule kernelLoop_runs)
      show "length (generateBitPatterns opWires qubits) = gate_length gate"
        using True by (simp add: gate_length_def)
      show "length (replicate (gate_length gate) (0 :: complex)) = gate_length gate"
        by simp
      show "\<forall>c \<in> set (generateBitPatterns ?ext qubits).
              \<forall>k \<in> set (generateBitPatterns opWires qubits). c + k < length state"
        using True assms(1) by (auto intro: offsets_in_range)
    qed
    moreover have "\<not> (\<exists>w \<in> set opWires. qubits \<le> w)"
      using True by (auto simp: not_le)
    then have "constructAndApplyOperation state opLabel opWires opParams qubits
        = kernelLoop gate (generateBitPatterns opWires qubits) (generateBitPatterns ?ext qubits)
            state (replicate (gate_length gate) 0)"
      using Inr True ext by (simp add: constructAndApplyOperation_def)
    ultimately show ?thesis
      using assms(2) by auto
  qed
qed

lemma applyOperations_failure:
  assumes "length state = 2 ^ qubits"
    "applyOperations state operations qubits = (state', Some e)"
  shows "e \<noteq> KernelFault
    \<and> (\<exists>applied opLabel opWires opParams rest.
          operations = applied @ (opLabel, opWires, opParams) # rest
          \<and> applyOperations state applied qubits = (state', None)
          \<and> constructAndApplyOperation state' opLabel opWires opParams qubits = (state', Some e))"
  using assms
proof (induction operations arbitrary: state)
  case Nil
  then show ?case by simp
next
  case (Cons operation operations)
  obtain opLabel opWires opParams where op: "operation = (opLabel, opWires, opParams)"
    by (cases operation) auto
  obtain s1 r where c: "constructAndApplyOperation state opLabel opWires opParams qubits = (s1, r)"
    by (cases "constructAndApplyOperation state opLabel opWires opParams qubits") auto
  have eff: "length s1 = length state" "r \<noteq> Some KernelFault" "r \<noteq> None \<longrightarrow> s1 = state"
    using constructAndApplyOperation_effect [OF Cons.prems(1) c] by simp_all
  show ?case
  proof (cases r)
    case None
    then have run: "applyOperations s1 operations qubits = (state', Some e)"
      using Cons.prems(2) op c by simp
    have "length s1 = 2 ^ qubits"
      using eff(1) Cons.prems(1) by simp
    from Cons.IH [OF this run]
    obtain applied' l w p rest where ih: "e \<noteq> KernelFault"
        "operations = applied' @ (l, w, p) # rest"
        "applyOperations s1 applied' qubits = (state', None)"
        "constructAndApplyOperation state' l w p qubits = (state', Some e)"
      by blast
    have "operation # operations = (operation # applied') @ (l, w, p) # rest"
      using ih(2) by simp
    moreover have "applyOperations state (operation # applied') qubits = (state', None)"
      using ih(3) op c None by simp
    ultimately show ?thesis
      using ih(1,4) by blast
  next
    case (Some e')
    then have "state' = state" "e' = e" "s1 = state"
      using Cons.prems(2) op c eff(3) by simp_all
    then have "operation # operations = [] @ (opLabel, opWires, opParams) # operations"
        "applyOperations state [] qubits = (state', None)"
        "constructAndApplyOperation state' opLabel opWires opParams qubits = (state', Some e)"
        "e \<noteq> KernelFault"
      using op c Some eff(2) by simp_all
    then show ?thesis by blast
  qed
qed

text \<open>
  C8: when \<open>apply\<close> over an ordered operation list fails, the failure is a validation failure
  (unknown gate, bad parameter count, bad wires or bad buffer length; a kernel never faults,
  since the buffer has length \<open>2^N\<close> and validated wires give offsets inside it), and the
  buffer it leaves is the result of applying exactly the operations before the failing one:
  the operation list splits into the operations applied, which run to completion on their own
  and yield that buffer, and the rest; unless the buffer length was rejected on entry, before
  any operation, the rest starts with the failing operation, which fails on that buffer and
  leaves it as it is.  Later operations are not reached.
\<close>

theorem apply_failure_keeps_prefix:
  assumes "apply' state operations qubits = (state', Some e)"
  shows "e \<noteq> KernelFault
    \<and> (\<exists>applied rest. operations = applied @ rest
          \<and> applyOperations state applied qubits = (state', None)
          \<and> (if length state \<noteq> 2 ^ qubits then e = BadBufferLength \<and> applied = []
              else \<exists>opLabel opWires opParams rest'.
                     rest = (opLabel, opWires, opParams) # rest'
                     \<and> constructAndApplyOperation state' opLabel opWires opParams qubits
                           = (state', Some e)))"
proof (cases "length state = 2 ^ qubits")
  case False
  then have "state' = state" "e = BadBufferLength"
    using assms by (simp_all add: apply'_def)
  then have "operations = [] @ operations" "applyOperations state [] qubits = (state', None)"
    by simp_all
  then show ?thesis
    using False \<open>e = BadBufferLength\<close> by auto
next
  case True
  then have "applyOperations state operations qubits = (state', Some e)"
    using assms by (simp add: apply'_def)
  from applyOperations_failure [OF True this] show ?thesis
    using True by fastforce
qed


theorem apply_failure_keeps_prefix_witness:
  "apply' [1, 0] [(''PauliX'', [0], []), (''Bogus'', [0], []), (''PauliZ'', [0], [])] 1
     = ([0, 1], Some (UnknownGate ''Bogus''))
   \<and> applyOperations [1, 0] [(''PauliX'', [0], [])] 1 = ([0, 1], None)
   \<and> constructAndApplyOperation [0, 1] ''Bogus'' [0] [] 1 = ([0, 1], Some (UnknownGate ''Bogus''))"
proof -
  have x: "constructAndApplyOperation [1, 0] ''PauliX'' [0] [] 1 = ([0, 1], None)"
    by (simp add: constructAndApplyOperation_def constructGate_def dispatchTable_eq
        XGate_create_def validateLength_def getIndicesExcluding_def gate_length_def
        XGate_applyKernel_def std_swap_def numeral_2_eq_2)
  have b: "constructAndApplyOperation [0, 1] ''Bogus'' [0] [] 1 = ([0, 1], Some (UnknownGate ''Bogus''))"
    by (simp add: constructAndApplyOperation_def constructGate_def dispatchTable_eq)
  have h: "apply' [1, 0] [(''PauliX'', [0], []), (''Bogus'', [0], []), (''PauliZ'', [0], [])] 1
     = ([0, 1], Some (UnknownGate ''Bogus''))"
    by (simp add: apply'_def x b del: One_nat_def)
  show ?thesis
    using apply_failure_keeps_prefix [OF h] by (simp add: h x b del: One_nat_def)
qed

end
